theory Spec2Isabelle
  imports Main "HOL-Library.Sublist"
begin

section \<open>Event model (internal/event/event.go)\<close>

subsection \<open>Go values that can be nil\<close>

text \<open>
  A Go map and a Go slice are reference values: each is either \<open>nil\<close> or holds
  entries. Reading a key of a nil map gives the zero value, as reading a missing key does.
\<close>

datatype gomap = NilMap | GoMap "string \<rightharpoonup> string"

datatype 'a slice = NilSlice | Slice "'a list"

fun entries :: "gomap \<Rightarrow> (string \<rightharpoonup> string)" where
  "entries NilMap = Map.empty"
| "entries (GoMap m) = m"

definition index :: "gomap \<Rightarrow> string \<Rightarrow> string" where
  \<comment> \<open>\<open>m[k]\<close> for a \<open>map[string]string\<close>: the empty string when the key is absent\<close>
  "index m k = (case entries m k of None \<Rightarrow> [] | Some v \<Rightarrow> v)"

subsection \<open>Constants\<close>

definition AnnotationPrefix :: string where
  "AnnotationPrefix = ''cert-webhook.golder.tech/''"

definition DefaultExchange :: string where
  "DefaultExchange = ''certificate-events''"

definition DefaultRoutingKey :: string where
  "DefaultRoutingKey = ''certificate.renewed''"

subsection \<open>The standard library's \<open>strings.SplitSeq\<close> and \<open>strings.TrimSpace\<close>\<close>

text \<open>
  \<open>strings.SplitSeq(s, ",")\<close> yields the substrings between the commas of \<open>s\<close>, in
  order; with n commas it yields n + 1 substrings. The scan keeps the token read so far
  (reversed) in \<open>cur\<close>.
\<close>

fun splitScan :: "string \<Rightarrow> string \<Rightarrow> string list" where
  "splitScan cur [] = [rev cur]"
| "splitScan cur (c # cs) =
     (if c = CHR '','' then rev cur # splitScan [] cs else splitScan (c # cur) cs)"

definition SplitSeq :: "string \<Rightarrow> string list" where
  "SplitSeq s = splitScan [] s"

text \<open>
  \<open>strings.TrimSpace\<close> removes leading and trailing white space as defined by Unicode.
  A Go string is a byte sequence read as UTF-8, so a white-space rune is one of the byte
  sequences below: the six ASCII ones, U+0085 and U+00A0 (two bytes), and U+1680,
  U+2000 to U+200A, U+2028, U+2029, U+202F, U+205F and U+3000 (three bytes).
\<close>

definition spaceEncodings :: "string list" where
  "spaceEncodings =
     [[CHR 0x09], [CHR 0x0A], [CHR 0x0B], [CHR 0x0C], [CHR 0x0D], [CHR 0x20],
      [CHR 0xC2, CHR 0x85], [CHR 0xC2, CHR 0xA0],
      [CHR 0xE1, CHR 0x9A, CHR 0x80],
      [CHR 0xE2, CHR 0x80, CHR 0x80], [CHR 0xE2, CHR 0x80, CHR 0x81],
      [CHR 0xE2, CHR 0x80, CHR 0x82], [CHR 0xE2, CHR 0x80, CHR 0x83],
      [CHR 0xE2, CHR 0x80, CHR 0x84], [CHR 0xE2, CHR 0x80, CHR 0x85],
      [CHR 0xE2, CHR 0x80, CHR 0x86], [CHR 0xE2, CHR 0x80, CHR 0x87],
      [CHR 0xE2, CHR 0x80, CHR 0x88], [CHR 0xE2, CHR 0x80, CHR 0x89],
      [CHR 0xE2, CHR 0x80, CHR 0x8A],
      [CHR 0xE2, CHR 0x80, CHR 0xA8], [CHR 0xE2, CHR 0x80, CHR 0xA9],
      [CHR 0xE2, CHR 0x80, CHR 0xAF], [CHR 0xE2, CHR 0x81, CHR 0x9F],
      [CHR 0xE3, CHR 0x80, CHR 0x80]]"

definition leadingSpace :: "string \<Rightarrow> string option" where
  \<comment> \<open>the white-space rune the string starts with, if it starts with one\<close>
  "leadingSpace s = find (\<lambda>w. prefix w s) spaceEncodings"

definition trailingSpace :: "string \<Rightarrow> string option" where
  "trailingSpace s = find (\<lambda>w. suffix w s) spaceEncodings"

lemma spaceEncodings_nonempty: "w \<in> set spaceEncodings \<Longrightarrow> 0 < length w"
  by (auto simp: spaceEncodings_def)

lemma leadingSpace_shorter:
  assumes "leadingSpace s = Some w"
  shows "length (drop (length w) s) < length s"
proof -
  from assms have w: "w \<in> set spaceEncodings" and p: "prefix w s"
    by (auto simp: leadingSpace_def find_Some_iff)
  from w have "0 < length w" by (rule spaceEncodings_nonempty)
  moreover from p have "length w \<le> length s" by (rule prefix_length_le)
  ultimately show ?thesis unfolding length_drop by arith
qed

lemma trailingSpace_shorter:
  assumes "trailingSpace s = Some w"
  shows "length (take (length s - length w) s) < length s"
proof -
  from assms have w: "w \<in> set spaceEncodings" and p: "suffix w s"
    by (auto simp: trailingSpace_def find_Some_iff)
  from w have "0 < length w" by (rule spaceEncodings_nonempty)
  moreover from p have "length w \<le> length s" by (rule suffix_length_le)
  ultimately show ?thesis unfolding length_take by arith
qed

function TrimLeftSpace :: "string \<Rightarrow> string" where
  "TrimLeftSpace s =
     (case leadingSpace s of
        None \<Rightarrow> s
      | Some w \<Rightarrow> TrimLeftSpace (drop (length w) s))"
  by pat_completeness auto
termination
  by (relation "measure length") (auto dest: leadingSpace_shorter)

function TrimRightSpace :: "string \<Rightarrow> string" where
  "TrimRightSpace s =
     (case trailingSpace s of
        None \<Rightarrow> s
      | Some w \<Rightarrow> TrimRightSpace (take (length s - length w) s))"
  by pat_completeness auto
termination
  by (relation "measure length") (auto dest: trailingSpace_shorter)

declare TrimLeftSpace.simps [simp del] TrimRightSpace.simps [simp del]

definition TrimSpace :: "string \<Rightarrow> string" where
  "TrimSpace s = TrimRightSpace (TrimLeftSpace s)"

subsection \<open>ParseContainerNames\<close>

definition appendName :: "string list \<Rightarrow> string \<Rightarrow> string list" where
  \<comment> \<open>the body of the loop: \<open>names\<close> after one token\<close>
  "appendName names name =
     (let trimmed = TrimSpace name in if trimmed \<noteq> [] then names @ [trimmed] else names)"

definition ParseContainerNames :: "string \<Rightarrow> string slice" where
  "ParseContainerNames containerNamesStr =
     (if containerNamesStr = [] then Slice []
      else Slice (foldl appendName [] (SplitSeq containerNamesStr)))"

text \<open>The parsing rule in the words of the specification: split on the comma, trim each
  token, discard the empty ones.\<close>

definition trimmedTokens :: "string \<Rightarrow> string list" where
  "trimmedTokens s = filter (\<lambda>t. t \<noteq> []) (map TrimSpace (SplitSeq s))"

subsection \<open>FilterAnnotations, NewMessage, ExchangeAndRoutingKey\<close>

definition FilterAnnotations :: "gomap \<Rightarrow> string \<Rightarrow> gomap" where
  \<comment> \<open>always a fresh map made with \<open>make\<close>, also for a nil argument\<close>
  "FilterAnnotations annotations pre =
     GoMap (\<lambda>k. if prefix pre k then entries annotations k else None)"

datatype anyval = MapVal gomap

record Message =
  Event :: string
  Certificate :: string
  Namespace :: string
  SecretName :: string
  TargetType :: string
  DockerEngine :: string
  DockerComposePath :: string
  ContainerNames :: "string slice"
  Timestamp :: int
  Trigger :: string
  Metadata :: "string \<rightharpoonup> anyval"

text \<open>\<open>now\<close> is the value of \<open>time.Now().Unix()\<close> at the call.\<close>

definition NewMessage ::
  "string \<Rightarrow> string \<Rightarrow> string \<Rightarrow> gomap \<Rightarrow> gomap \<Rightarrow> int \<Rightarrow> Message" where
  "NewMessage name namespace secretName labels annotations0 now =
     (let annotations = (if annotations0 = NilMap then GoMap Map.empty else annotations0)
      in \<lparr>Event = ''certificate.renewed'',
          Certificate = name,
          Namespace = namespace,
          SecretName = secretName,
          TargetType = index annotations (AnnotationPrefix @ ''target''),
          DockerEngine = index annotations (AnnotationPrefix @ ''docker-engine''),
          DockerComposePath = index annotations (AnnotationPrefix @ ''docker-compose-path''),
          ContainerNames =
            ParseContainerNames (index annotations (AnnotationPrefix @ ''container-names'')),
          Timestamp = now,
          Trigger = ''cert-manager-webhook'',
          Metadata =
            [''labels'' \<mapsto> MapVal labels,
             ''annotations'' \<mapsto> MapVal (FilterAnnotations annotations AnnotationPrefix)]\<rparr>)"

definition ExchangeAndRoutingKey :: "gomap \<Rightarrow> string \<times> string" where
  "ExchangeAndRoutingKey annotations =
     (let exchange0 = index annotations (AnnotationPrefix @ ''rabbitmq-exchange'');
          exchange = (if exchange0 = [] then DefaultExchange else exchange0);
          routingKey0 = index annotations (AnnotationPrefix @ ''rabbitmq-routing-key'');
          routingKey = (if routingKey0 = [] then DefaultRoutingKey else routingKey0)
      in (exchange, routingKey))"

text \<open>What the specification says of one field of the routing target: the annotation's
  value when the key is present with a non-empty value, the default otherwise.\<close>

definition override :: "gomap \<Rightarrow> string \<Rightarrow> string \<Rightarrow> string" where
  "override annotations key dflt =
     (case entries annotations key of
        None \<Rightarrow> dflt
      | Some v \<Rightarrow> if v = [] then dflt else v)"

section \<open>Broker client (internal/rabbitmq/client.go)\<close>

subsection \<open>State\<close>

text \<open>
  An error is the text \<open>err.Error()\<close> of a Go error; \<open>fmt.Errorf\<close> with \<open>%w\<close> or
  \<open>%v\<close> puts the text of the wrapped error into the new one. A connection or channel of
  the AMQP library is a handle; a nil pointer is \<open>None\<close>.
\<close>

type_synonym error = string

type_synonym handle = nat

definition maxReconnectAttempts :: nat where
  "maxReconnectAttempts = 5"

text \<open>A \<open>time.Duration\<close> counts nanoseconds.\<close>

definition initialBackoff :: nat where
  "initialBackoff = 1000000000"

definition maxBackoff :: nat where
  "maxBackoff = 30000000000"

text \<open>
  The fields of \<open>Client\<close>. The mutex \<open>mu\<close> is not a field of the model: a stretch of
  code that holds it is one atomic step, and other goroutines act only between such steps.
\<close>

record Client =
  conn :: "handle option"
  channel :: "handle option"
  url :: string
  closed :: bool

text \<open>
  The AMQP library and the broker are outside the repository. Every call that can fail
  (Dial, Channel, Close, ExchangeDeclare, PublishWithContext, QueueDeclare) takes its
  outcome from \<open>answers\<close>: the outcome of the n-th call made so far, \<open>None\<close> for success
  and the error's text otherwise, so that every behaviour of library and broker is some
  choice of \<open>answers\<close>. \<open>dead\<close> holds the connections for which \<open>IsClosed()\<close> reports
  true, \<open>fresh\<close> is the next unused handle.

  \<open>amqp.Dial\<close> can return a connection together with its error: when the transport was
  connected and the handshake failed, the library returns the connection object it made.
  \<open>remnants\<close> says what a Dial that fails as the n-th call returns beside the error: a
  nil pointer, a connection that reports itself closed, or one that does not yet.
\<close>

datatype dialRemnant = NoConnection | ClosedConnection | UnclosedConnection

record state =
  client :: Client
  answers :: "nat \<Rightarrow> error option"
  remnants :: "nat \<Rightarrow> dialRemnant"
  calls :: nat
  fresh :: handle
  dead :: "handle set"

text \<open>What an operation does to the outside, in order. \<open>Watch\<close> is the start of the
  goroutine of \<open>watchConnection\<close>, which subscribes to the close notification of the
  connection \<open>c.conn\<close> refers to when the goroutine reads it (a nil pointer then is
  \<open>Watch None\<close>).\<close>

datatype action =
    Dial string
  | OpenChannel handle
  | CloseChannel handle
  | CloseConn handle
  | ExchangeDeclare handle string
  | BasicPublish handle string string string
  | QueueDeclare handle
  | Sleep nat
  | Watch "handle option"

fun networkIO :: "action \<Rightarrow> bool" where
  "networkIO (Sleep d) = False"
| "networkIO (Watch h) = False"
| "networkIO a = True"

fun isDial :: "action \<Rightarrow> bool" where
  "isDial (Dial u) = True"
| "isDial a = False"

fun isExchangeDeclare :: "action \<Rightarrow> bool" where
  "isExchangeDeclare (ExchangeDeclare ch x) = True"
| "isExchangeDeclare a = False"

fun isBasicPublish :: "action \<Rightarrow> bool" where
  "isBasicPublish (BasicPublish ch x k b) = True"
| "isBasicPublish a = False"

subsection \<open>The calls into the AMQP library\<close>

definition reply :: "state \<Rightarrow> error option \<times> state" where
  "reply s = (answers s (calls s), s\<lparr>calls := Suc (calls s)\<rparr>)"

definition newHandle :: "state \<Rightarrow> (error + handle) \<times> state" where
  \<comment> \<open>a call that returns a new object or an error (and then a nil pointer)\<close>
  "newHandle s =
     (case reply s of
        (Some err, s1) \<Rightarrow> (Inl err, s1)
      | (None, s1) \<Rightarrow> (Inr (fresh s1), s1\<lparr>fresh := Suc (fresh s1)\<rparr>))"

definition amqpDial :: "string \<Rightarrow> state \<Rightarrow> (error \<times> handle option + handle) \<times> state" where
  \<comment> \<open>the connection, or the error and the pointer returned with it\<close>
  "amqpDial u s =
     (case reply s of
        (None, s1) \<Rightarrow> (Inr (fresh s1), s1\<lparr>fresh := Suc (fresh s1)\<rparr>)
      | (Some err, s1) \<Rightarrow>
          (case remnants s (calls s) of
             NoConnection \<Rightarrow> (Inl (err, None), s1)
           | ClosedConnection \<Rightarrow>
               (Inl (err, Some (fresh s1)),
                s1\<lparr>fresh := Suc (fresh s1), dead := insert (fresh s1) (dead s1)\<rparr>)
           | UnclosedConnection \<Rightarrow>
               (Inl (err, Some (fresh s1)), s1\<lparr>fresh := Suc (fresh s1)\<rparr>)))"

definition connChannel :: "handle \<Rightarrow> state \<Rightarrow> (error + handle) \<times> state" where
  "connChannel h s = newHandle s"

definition connClose :: "handle \<Rightarrow> state \<Rightarrow> error option \<times> state" where
  \<comment> \<open>whatever it returns, the connection reports itself closed afterwards\<close>
  "connClose h s = (case reply s of (r, s1) \<Rightarrow> (r, s1\<lparr>dead := insert h (dead s1)\<rparr>))"

definition connIsClosed :: "handle \<Rightarrow> state \<Rightarrow> bool" where
  "connIsClosed h s = (h \<in> dead s)"

definition channelClose :: "handle \<Rightarrow> state \<Rightarrow> error option \<times> state" where
  "channelClose ch s = reply s"

definition channelExchangeDeclare :: "handle \<Rightarrow> string \<Rightarrow> state \<Rightarrow> error option \<times> state" where
  "channelExchangeDeclare ch exchange s = reply s"

definition channelPublishWithContext ::
  "handle \<Rightarrow> string \<Rightarrow> string \<Rightarrow> string \<Rightarrow> state \<Rightarrow> error option \<times> state" where
  "channelPublishWithContext ch exchange routingKey body s = reply s"

definition channelQueueDeclare :: "handle \<Rightarrow> state \<Rightarrow> error option \<times> state" where
  "channelQueueDeclare ch s = reply s"

subsection \<open>connect, reconnect, ensureConnection\<close>

definition setConn :: "handle option \<Rightarrow> state \<Rightarrow> state" where
  "setConn c s = s\<lparr>client := (client s)\<lparr>conn := c\<rparr>\<rparr>"

definition setChannel :: "handle option \<Rightarrow> state \<Rightarrow> state" where
  "setChannel ch s = s\<lparr>client := (client s)\<lparr>channel := ch\<rparr>\<rparr>"

definition setClosed :: "bool \<Rightarrow> state \<Rightarrow> state" where
  "setClosed b s = s\<lparr>client := (client s)\<lparr>closed := b\<rparr>\<rparr>"

text \<open>Every operation returns its error (\<open>None\<close> is Go's nil), the actions it performed
  and the state it leaves.\<close>

definition connect :: "state \<Rightarrow> error option \<times> action list \<times> state" where
  "connect s =
     (case amqpDial (url (client s)) s of
        (Inl (err, c), s1) \<Rightarrow>
          (Some (''failed to connect to RabbitMQ: '' @ err),
           [Dial (url (client s))],
           setConn c s1)
      | (Inr h, s1) \<Rightarrow>
          (case connChannel h (setConn (Some h) s1) of
             (Inl err, s2) \<Rightarrow>
               (case connClose h (setChannel None s2) of
                  (_, s3) \<Rightarrow>
                    (Some (''failed to open channel: '' @ err),
                     [Dial (url (client s)), OpenChannel h, CloseConn h],
                     s3))
           | (Inr ch, s2) \<Rightarrow>
               (None, [Dial (url (client s)), OpenChannel h], setChannel (Some ch) s2)))"

definition reconnect :: "state \<Rightarrow> error option \<times> action list \<times> state" where
  "reconnect s =
     (let (a1, s1) =
            (case channel (client s) of
               None \<Rightarrow> ([], s)
             | Some ch \<Rightarrow> (case channelClose ch s of (_, s') \<Rightarrow> ([CloseChannel ch], s')));
          (a2, s2) =
            (case conn (client s1) of
               None \<Rightarrow> ([], s1)
             | Some h \<Rightarrow>
                 if \<not> connIsClosed h s1
                 then (case connClose h s1 of (_, s') \<Rightarrow> ([CloseConn h], s'))
                 else ([], s1))
      in case connect s2 of (r, a3, s3) \<Rightarrow> (r, a1 @ a2 @ a3, s3))"

definition ensureConnection :: "state \<Rightarrow> error option \<times> action list \<times> state" where
  "ensureConnection s =
     (if (case conn (client s) of None \<Rightarrow> True | Some h \<Rightarrow> connIsClosed h s)
         \<or> channel (client s) = None
      then reconnect s
      else (None, [], s))"

subsection \<open>Publish\<close>

text \<open>
  Publish takes the lock twice: inside ensureConnection, and then for the declaration and
  the send. \<open>env\<close> is what other goroutines do to the state between the two. A call of a
  method of a nil channel is a nil pointer dereference. \<open>body\<close> is the result of
  \<open>json.Marshal(message)\<close>.
\<close>

datatype outcome = Return "error option" | Panic

definition publishLocked ::
  "string \<Rightarrow> string \<Rightarrow> (error + string) \<Rightarrow> state \<Rightarrow> outcome \<times> action list \<times> state" where
  "publishLocked exchange routingKey body s =
     (case channel (client s) of
        None \<Rightarrow> (Panic, [], s)
      | Some ch \<Rightarrow>
          (case channelExchangeDeclare ch exchange s of
             (Some err, s1) \<Rightarrow>
               (Return (Some (''failed to declare exchange: '' @ err)),
                [ExchangeDeclare ch exchange], s1)
           | (None, s1) \<Rightarrow>
               (case body of
                  Inl err \<Rightarrow>
                    (Return (Some (''failed to marshal message: '' @ err)),
                     [ExchangeDeclare ch exchange], s1)
                | Inr b \<Rightarrow>
                    (case channelPublishWithContext ch exchange routingKey b s1 of
                       (Some err, s2) \<Rightarrow>
                         (Return (Some (''failed to publish message: '' @ err)),
                          [ExchangeDeclare ch exchange, BasicPublish ch exchange routingKey b],
                          s2)
                     | (None, s2) \<Rightarrow>
                         (Return None,
                          [ExchangeDeclare ch exchange, BasicPublish ch exchange routingKey b],
                          s2)))))"

definition Publish ::
  "(state \<Rightarrow> state) \<Rightarrow> string \<Rightarrow> string \<Rightarrow> (error + string) \<Rightarrow> state
     \<Rightarrow> outcome \<times> action list \<times> state" where
  "Publish env exchange routingKey body s =
     (case ensureConnection s of
        (Some err, a, s1) \<Rightarrow> (Return (Some (''failed to ensure connection: '' @ err)), a, s1)
      | (None, a, s1) \<Rightarrow>
          (case publishLocked exchange routingKey body (env s1) of
             (r, a', s2) \<Rightarrow> (r, a @ a', s2)))"

subsection \<open>HealthCheck and Close\<close>

definition HealthCheck :: "state \<Rightarrow> error option \<times> action list \<times> state" where
  "HealthCheck s =
     (if (case conn (client s) of None \<Rightarrow> True | Some h \<Rightarrow> connIsClosed h s)
      then (Some ''connection is closed'', [], s)
      else case channel (client s) of
             None \<Rightarrow> (Some ''channel is nil'', [], s)
           | Some ch \<Rightarrow>
               (case channelQueueDeclare ch s of
                  (Some err, s1) \<Rightarrow> (Some (''health check failed: '' @ err), [QueueDeclare ch], s1)
                | (None, s1) \<Rightarrow> (None, [QueueDeclare ch], s1)))"

definition Close :: "state \<Rightarrow> error option \<times> action list \<times> state" where
  "Close s =
     (let s0 = setClosed True s;
          (err1, a1, s1) =
            (case channel (client s0) of
               None \<Rightarrow> (None, [], s0)
             | Some ch \<Rightarrow>
                 (case channelClose ch s0 of
                    (Some channelErr, s') \<Rightarrow>
                      (Some (''failed to close channel: '' @ channelErr), [CloseChannel ch], s')
                  | (None, s') \<Rightarrow> (None, [CloseChannel ch], s')))
      in case conn (client s1) of
           None \<Rightarrow> (err1, a1, s1)
         | Some h \<Rightarrow>
             (case connClose h s1 of
                (Some connErr, s2) \<Rightarrow>
                  (case err1 of
                     Some e1 \<Rightarrow>
                       (Some (e1 @ ''; failed to close connection: '' @ connErr),
                        a1 @ [CloseConn h], s2)
                   | None \<Rightarrow>
                       (Some (''failed to close connection: '' @ connErr),
                        a1 @ [CloseConn h], s2))
              | (None, s2) \<Rightarrow> (err1, a1 @ [CloseConn h], s2)))"

subsection \<open>The close-watcher and the retry sequence\<close>

text \<open>
  watchConnection starts a goroutine and returns. The goroutine reads \<open>c.conn\<close> later
  and without the lock, so other goroutines can act before it does: the argument is the
  state in which the goroutine reads \<open>c.conn\<close>.
\<close>

definition watchConnection :: "state \<Rightarrow> action list" where
  "watchConnection s = [Watch (conn (client s))]"

text \<open>
  The operands of the backoff are integers below \<open>2^53\<close> times a power of two, so the
  floating-point product and minimum of the source are exact and the duration is the
  integer below.
\<close>

definition backoff :: "nat \<Rightarrow> nat" where
  "backoff attempt = min (initialBackoff * 2 ^ attempt) maxBackoff"

definition closedDuringReconnection :: error where
  "closedDuringReconnection = ''client closed during reconnection''"

definition reconnectExhausted :: error where
  \<comment> \<open>\<open>%d\<close> of maxReconnectAttempts\<close>
  "reconnectExhausted = ''failed to reconnect after 5 attempts''"

text \<open>
  The loop \<open>for attempt := range maxReconnectAttempts\<close>, over the attempts still to run.
  \<open>env attempt\<close> is what other goroutines do to the state while this one sleeps before
  taking the lock of the attempt; the check of \<open>closed\<close> and the call of reconnect are one
  atomic step. After a successful attempt the lock is released before watchConnection is
  called: \<open>env (Suc attempt)\<close>, not used for a sleep then, is what other goroutines do
  before the new goroutine reads \<open>c.conn\<close>. The state returned is the one at the return.
\<close>

fun attempts ::
  "(nat \<Rightarrow> state \<Rightarrow> state) \<Rightarrow> nat list \<Rightarrow> state \<Rightarrow> error option \<times> action list \<times> state" where
  "attempts env [] s = (Some reconnectExhausted, [], s)"
| "attempts env (attempt # rest) s =
     (let s1 = env attempt s
      in if closed (client s1)
         then (Some closedDuringReconnection, [Sleep (backoff attempt)], s1)
         else case reconnect s1 of
                (Some err, a, s2) \<Rightarrow>
                  (case attempts env rest s2 of
                     (r, a', s3) \<Rightarrow> (r, Sleep (backoff attempt) # a @ a', s3))
              | (None, a, s2) \<Rightarrow>
                  (None,
                   Sleep (backoff attempt) # a @ watchConnection (env (Suc attempt) s2),
                   s2))"

definition reconnectWithBackoff ::
  "(nat \<Rightarrow> state \<Rightarrow> state) \<Rightarrow> state \<Rightarrow> error option \<times> action list \<times> state" where
  "reconnectWithBackoff env s = attempts env [0..<maxReconnectAttempts] s"

text \<open>
  The goroutine of watchConnection, from the moment the close notification arrives:
  \<open>notification\<close> is the value received, \<open>None\<close> for a graceful close. The result of
  the retry sequence is discarded by the source; the model keeps it to tell the exits apart.
\<close>

datatype watcherExit = GracefulClose | ClientClosed | Retried "error option"

definition watcher ::
  "(nat \<Rightarrow> state \<Rightarrow> state) \<Rightarrow> error option \<Rightarrow> state \<Rightarrow> watcherExit \<times> action list \<times> state" where
  "watcher env notification s =
     (case notification of
        None \<Rightarrow> (GracefulClose, [], s)
      | Some err \<Rightarrow>
          if closed (client s) then (ClientClosed, [], s)
          else case reconnectWithBackoff env s of (r, a, s1) \<Rightarrow> (Retried r, a, s1))"

text \<open>\<open>after\<close> is what other goroutines do between the return of NewClient and the
  read of \<open>c.conn\<close> by the goroutine it started.\<close>

definition NewClient ::
  "(state \<Rightarrow> state) \<Rightarrow> string \<Rightarrow> state \<Rightarrow> error option \<times> action list \<times> state" where
  "NewClient after u s =
     (case connect (s\<lparr>client := \<lparr>conn = None, channel = None, url = u, closed = False\<rparr>\<rparr>) of
        (Some err, a, s1) \<Rightarrow> (Some (''failed to connect to RabbitMQ: '' @ err), a, s1)
      | (None, a, s1) \<Rightarrow> (None, a @ watchConnection (after s1), s1))"

subsection \<open>Goroutines running side by side\<close>

text \<open>
  The steps that other goroutines can take on the client between two steps of the one
  observed: each is a stretch of code of the client that holds the lock, or the transport
  losing a connection.
\<close>

datatype step =
    EnsureStep
  | PublishStep string string "error + string"
  | HealthCheckStep
  | CloseStep
  | AttemptStep
  | ConnectionLost handle

fun exec :: "step \<Rightarrow> state \<Rightarrow> state" where
  "exec EnsureStep s = snd (snd (ensureConnection s))"
| "exec (PublishStep exchange routingKey body) s =
     snd (snd (publishLocked exchange routingKey body s))"
| "exec HealthCheckStep s = snd (snd (HealthCheck s))"
| "exec CloseStep s = snd (snd (Close s))"
| "exec AttemptStep s = (if closed (client s) then s else snd (snd (reconnect s)))"
| "exec (ConnectionLost h) s = s\<lparr>dead := insert h (dead s)\<rparr>"

definition run :: "step list \<Rightarrow> state \<Rightarrow> state" where
  "run steps s = fold exec steps s"

subsection \<open>States used as examples\<close>

definition reachable :: "nat \<Rightarrow> error option" where
  \<comment> \<open>a broker that accepts everything\<close>
  "reachable n = None"

definition unreachable :: "nat \<Rightarrow> error option" where
  \<comment> \<open>a broker that cannot be reached\<close>
  "unreachable n = Some ''connection refused''"

definition refusedDial :: "nat \<Rightarrow> dialRemnant" where
  \<comment> \<open>a Dial that fails returns no connection: the transport could not be connected\<close>
  "refusedDial n = NoConnection"

definition blank :: "(nat \<Rightarrow> error option) \<Rightarrow> state" where
  \<comment> \<open>the client \<open>&Client{url: "amqp://test"}\<close> of the tests, nothing called yet\<close>
  "blank f =
     \<lparr>client = \<lparr>conn = None, channel = None, url = ''amqp://test'', closed = False\<rparr>,
      answers = f, remnants = refusedDial, calls = 0, fresh = 0, dead = {}\<rparr>"

definition connected :: "(nat \<Rightarrow> error option) \<Rightarrow> state" where
  \<comment> \<open>after a successful NewClient: connection 0 with channel 1, two calls made\<close>
  "connected f =
     \<lparr>client = \<lparr>conn = Some 0, channel = Some 1, url = ''amqp://test'', closed = False\<rparr>,
      answers = f, remnants = refusedDial, calls = 2, fresh = 2, dead = {}\<rparr>"

definition idle :: "nat \<Rightarrow> state \<Rightarrow> state" where
  \<comment> \<open>no other goroutine acts\<close>
  "idle attempt s = s"

subsection \<open>Notions used to state the properties\<close>

text \<open>The first two statements of reconnect, which close what the client still holds,
  under a name of their own.\<close>

definition closeStale :: "state \<Rightarrow> action list \<times> state" where
  "closeStale s =
     (let (a1, s1) =
            (case channel (client s) of
               None \<Rightarrow> ([], s)
             | Some ch \<Rightarrow> (case channelClose ch s of (_, s') \<Rightarrow> ([CloseChannel ch], s')));
          (a2, s2) =
            (case conn (client s1) of
               None \<Rightarrow> ([], s1)
             | Some h \<Rightarrow>
                 if \<not> connIsClosed h s1
                 then (case connClose h s1 of (_, s') \<Rightarrow> ([CloseConn h], s'))
                 else ([], s1))
      in (a1 @ a2, s2))"

text \<open>The sleeps, dials and watcher starts of a list of actions, in order.\<close>

datatype mark = Slept nat | Dialled | Watching

fun marks :: "action list \<Rightarrow> mark list" where
  "marks [] = []"
| "marks (Sleep d # as) = Slept d # marks as"
| "marks (Dial u # as) = Dialled # marks as"
| "marks (Watch h # as) = Watching # marks as"
| "marks (a # as) = marks as"

text \<open>What the specification says of the attempts \<open>is\<close> when none succeeds: attempt i
  sleeps \<open>min(initialBackoff * 2^i, maxBackoff)\<close> and then dials.\<close>

definition pattern :: "nat list \<Rightarrow> mark list" where
  "pattern is = concat (map (\<lambda>i. [Slept (backoff i), Dialled]) is)"

text \<open>
  The run of the retry sequence, attempt by attempt. \<open>afterAttempts env j s\<close> is the state
  after the locked steps of the first j attempts, when each of them called reconnect;
  \<open>atCheck env j s\<close> is the state in which attempt j then takes the lock, after its sleep.
  Attempt j fails when it finds the client open and its reconnect returns an error, and
  succeeds when it finds the client open and its reconnect returns nil.
  \<open>failedTrace env j s\<close> is what the first j attempts do when they fail.
\<close>

fun afterAttempts :: "(nat \<Rightarrow> state \<Rightarrow> state) \<Rightarrow> nat \<Rightarrow> state \<Rightarrow> state" where
  "afterAttempts env 0 s = s"
| "afterAttempts env (Suc j) s = snd (snd (reconnect (env j (afterAttempts env j s))))"

definition atCheck :: "(nat \<Rightarrow> state \<Rightarrow> state) \<Rightarrow> nat \<Rightarrow> state \<Rightarrow> state" where
  "atCheck env j s = env j (afterAttempts env j s)"

definition failsAt :: "(nat \<Rightarrow> state \<Rightarrow> state) \<Rightarrow> state \<Rightarrow> nat \<Rightarrow> bool" where
  "failsAt env s j =
     (\<not> closed (client (atCheck env j s)) \<and> fst (reconnect (atCheck env j s)) \<noteq> None)"

definition succeedsAt :: "(nat \<Rightarrow> state \<Rightarrow> state) \<Rightarrow> state \<Rightarrow> nat \<Rightarrow> bool" where
  "succeedsAt env s j =
     (\<not> closed (client (atCheck env j s)) \<and> fst (reconnect (atCheck env j s)) = None)"

fun failedTrace :: "(nat \<Rightarrow> state \<Rightarrow> state) \<Rightarrow> nat \<Rightarrow> state \<Rightarrow> action list" where
  "failedTrace env 0 s = []"
| "failedTrace env (Suc j) s =
     failedTrace env j s @ Sleep (backoff j) # fst (snd (reconnect (atCheck env j s)))"

definition dropped :: "(nat \<Rightarrow> error option) \<Rightarrow> state" where
  \<comment> \<open>the client of \<open>connected f\<close> after the broker dropped its connection, which is when
      the close-watcher starts the retry sequence\<close>
  "dropped f = (connected f)\<lparr>dead := {0}\<rparr>"

text \<open>What the specification says of the failure of Close: the errors of the two close
  operations, concatenated.\<close>

fun closeFailure :: "error option \<Rightarrow> error option \<Rightarrow> error option" where
  "closeFailure None None = None"
| "closeFailure (Some e1) None = Some (''failed to close channel: '' @ e1)"
| "closeFailure None (Some e2) = Some (''failed to close connection: '' @ e2)"
| "closeFailure (Some e1) (Some e2) =
     Some (''failed to close channel: '' @ e1 @ ''; failed to close connection: '' @ e2)"

definition alreadyClosed :: "nat \<Rightarrow> error option" where
  \<comment> \<open>a library that accepts the first four calls and then reports that channel and
      connection are closed already\<close>
  "alreadyClosed n = (if n < 4 then None else Some ''channel/connection is not open'')"

definition rejecting :: "nat \<Rightarrow> nat \<Rightarrow> error option" where
  \<comment> \<open>a broker that rejects call \<open>k\<close> only\<close>
  "rejecting k n = (if n = k then Some ''access refused'' else None)"

definition closingAt :: "nat \<Rightarrow> nat \<Rightarrow> state \<Rightarrow> state" where
  \<comment> \<open>the owner calls Close while the retry sequence sleeps before attempt \<open>k\<close>\<close>
  "closingAt k attempt s = (if attempt = k then snd (snd (Close s)) else s)"

section \<open>Properties of the event model\<close>

subsection \<open>The library functions as modelled\<close>

lemma splitScan_join:
  "concat (map (\<lambda>t. CHR '','' # t) (splitScan cur s)) = CHR '','' # rev cur @ s"
  by (induction s arbitrary: cur) auto

lemma splitScan_no_comma:
  "CHR '','' \<notin> set cur \<Longrightarrow> \<forall>t \<in> set (splitScan cur s). CHR '','' \<notin> set t"
proof (induction s arbitrary: cur)
  case Nil
  then show ?case by simp
next
  case (Cons c cs)
  show ?case
  proof (cases "c = CHR '',''")
    case True
    with Cons.IH[of "[]"] Cons.prems show ?thesis by simp
  next
    case False
    with Cons.IH[of "c # cur"] Cons.prems show ?thesis by simp
  qed
qed

text \<open>The tokens of \<open>SplitSeq\<close> contain no comma, and putting a comma before each and
  concatenating gives back the input behind a comma: they are the comma-separated tokens.\<close>

lemma SplitSeq_tokens:
  "concat (map (\<lambda>t. CHR '','' # t) (SplitSeq s)) = CHR '','' # s"
  "\<forall>t \<in> set (SplitSeq s). CHR '','' \<notin> set t"
  using splitScan_no_comma[of "[]" s] by (simp_all add: SplitSeq_def splitScan_join)

lemma SplitSeq_Nil: "SplitSeq [] = [[]]"
  by (simp add: SplitSeq_def)

lemma trailingSpace_TrimRightSpace: "trailingSpace (TrimRightSpace s) = None"
proof (induction s rule: TrimRightSpace.induct)
  case (1 s)
  then show ?case
    by (cases "trailingSpace s") (simp_all add: TrimRightSpace.simps)
qed

lemma leadingSpace_TrimLeftSpace: "leadingSpace (TrimLeftSpace s) = None"
proof (induction s rule: TrimLeftSpace.induct)
  case (1 s)
  then show ?case
    by (cases "leadingSpace s") (simp_all add: TrimLeftSpace.simps)
qed

lemma leadingSpace_take: "leadingSpace s = None \<Longrightarrow> leadingSpace (take n s) = None"
  unfolding leadingSpace_def find_None_iff
  by (meson prefix_order.trans take_is_prefix)

lemma leadingSpace_TrimRightSpace:
  "leadingSpace s = None \<Longrightarrow> leadingSpace (TrimRightSpace s) = None"
proof (induction s rule: TrimRightSpace.induct)
  case (1 s)
  then show ?case
    by (cases "trailingSpace s") (simp_all add: TrimRightSpace.simps leadingSpace_take)
qed

text \<open>A trimmed string neither starts nor ends with a white-space rune.\<close>

lemma TrimSpace_trimmed:
  "leadingSpace (TrimSpace s) = None" "trailingSpace (TrimSpace s) = None"
  by (simp_all add: TrimSpace_def leadingSpace_TrimRightSpace leadingSpace_TrimLeftSpace
      trailingSpace_TrimRightSpace)

lemma TrimSpace_Nil: "TrimSpace [] = []"
  by code_simp

subsection \<open>ParseContainerNames\<close>

lemma foldl_appendName:
  "foldl appendName acc ts = acc @ filter (\<lambda>t. t \<noteq> []) (map TrimSpace ts)"
  by (induction ts arbitrary: acc) (simp_all add: appendName_def Let_def)

lemma ParseContainerNames_trimmedTokens: "ParseContainerNames s = Slice (trimmedTokens s)"
  by (simp add: ParseContainerNames_def trimmedTokens_def foldl_appendName SplitSeq_Nil
      TrimSpace_Nil)

lemma ParseContainerNames_example: "ParseContainerNames ''a, ,b,'' = Slice [''a'', ''b'']"
  by code_simp

text \<open>
  C8. For every input string, ParseContainerNames returns, in a slice that is not nil,
  the comma-separated tokens of the input from left to right, each with its surrounding
  white space trimmed, without the tokens that are empty after trimming: the result is the
  sequence \<open>trimmedTokens\<close> of the specification, no element of it is the empty string,
  \<open>"a, ,b,"\<close> yields \<open>["a","b"]\<close> and the empty string yields the empty sequence.
\<close>

theorem C8_ParseContainerNames:
  "ParseContainerNames s = Slice (filter (\<lambda>t. t \<noteq> []) (map TrimSpace (SplitSeq s)))
   \<and> [] \<notin> set (filter (\<lambda>t. t \<noteq> []) (map TrimSpace (SplitSeq s)))
   \<and> ParseContainerNames s \<noteq> NilSlice
   \<and> ParseContainerNames ''a, ,b,'' = Slice [''a'', ''b'']
   \<and> ParseContainerNames [] = Slice []"
proof -
  have "ParseContainerNames s = Slice (filter (\<lambda>t. t \<noteq> []) (map TrimSpace (SplitSeq s)))"
    using ParseContainerNames_trimmedTokens[of s] by (simp add: trimmedTokens_def)
  moreover have "ParseContainerNames [] = Slice []"
    by (simp add: ParseContainerNames_def)
  ultimately show ?thesis
    by (simp add: ParseContainerNames_example)
qed

subsection \<open>ExchangeAndRoutingKey\<close>

lemma index_override:
  "(if index a k = [] then d else index a k) = override a k d"
  by (simp add: index_def override_def split: option.splits)

text \<open>
  C9. For every annotation mapping, nil included, ExchangeAndRoutingKey returns a
  non-empty exchange and a non-empty routing key; each of the two is the value of its
  prefixed annotation when that is present and not the empty string, and its own default,
  "certificate-events" or "certificate.renewed", otherwise.
\<close>

theorem C9_ExchangeAndRoutingKey:
  "fst (ExchangeAndRoutingKey a) \<noteq> []
   \<and> snd (ExchangeAndRoutingKey a) \<noteq> []
   \<and> fst (ExchangeAndRoutingKey a) =
       (case entries a ''cert-webhook.golder.tech/rabbitmq-exchange'' of
          None \<Rightarrow> ''certificate-events''
        | Some v \<Rightarrow> if v = [] then ''certificate-events'' else v)
   \<and> snd (ExchangeAndRoutingKey a) =
       (case entries a ''cert-webhook.golder.tech/rabbitmq-routing-key'' of
          None \<Rightarrow> ''certificate.renewed''
        | Some v \<Rightarrow> if v = [] then ''certificate.renewed'' else v)
   \<and> ExchangeAndRoutingKey NilMap = (''certificate-events'', ''certificate.renewed'')
   \<and> ExchangeAndRoutingKey (GoMap Map.empty) = (''certificate-events'', ''certificate.renewed'')"
  by (simp add: ExchangeAndRoutingKey_def Let_def index_def AnnotationPrefix_def
      DefaultExchange_def DefaultRoutingKey_def split: option.splits)

subsection \<open>NewMessage with nil maps\<close>

text \<open>
  C2, as the specification states it, asks that the metadata of the message built from
  nil labels and nil annotations holds an empty labels mapping that is not nil. The labels
  argument is stored as it is given, so the entry is the nil map.
\<close>

theorem C2_labels_stay_nil:
  "Metadata (NewMessage ''test-cert'' ''default'' ''test-cert-tls'' NilMap NilMap 0) ''labels''
     = Some (MapVal NilMap)
   \<and> Metadata (NewMessage ''test-cert'' ''default'' ''test-cert-tls'' NilMap NilMap 0) ''labels''
     \<noteq> Some (MapVal (GoMap Map.empty))"
  by (simp add: NewMessage_def Let_def)

text \<open>
  C2, amended. NewMessage called with nil labels and nil annotations returns a message
  (it cannot fail) whose metadata has exactly the keys "labels" and "annotations"; the
  annotations entry is an empty mapping that is not nil, the labels entry is the labels
  argument as given, that is the nil map, which has no entries; the optional string fields
  targetType, dockerEngine and dockerComposePath are the empty string and containerNames is
  the empty sequence, not nil.
\<close>

theorem C2_NewMessage_nil:
  "Metadata (NewMessage name namespace secretName NilMap NilMap now) ''annotations''
     = Some (MapVal (GoMap Map.empty))
   \<and> Metadata (NewMessage name namespace secretName NilMap NilMap now) ''labels''
     = Some (MapVal NilMap)
   \<and> entries NilMap = Map.empty
   \<and> dom (Metadata (NewMessage name namespace secretName NilMap NilMap now))
     = {''labels'', ''annotations''}
   \<and> TargetType (NewMessage name namespace secretName NilMap NilMap now) = []
   \<and> DockerEngine (NewMessage name namespace secretName NilMap NilMap now) = []
   \<and> DockerComposePath (NewMessage name namespace secretName NilMap NilMap now) = []
   \<and> ContainerNames (NewMessage name namespace secretName NilMap NilMap now) = Slice []
   \<and> Certificate (NewMessage name namespace secretName NilMap NilMap now) = name
   \<and> Namespace (NewMessage name namespace secretName NilMap NilMap now) = namespace
   \<and> SecretName (NewMessage name namespace secretName NilMap NilMap now) = secretName"
  by (auto simp: NewMessage_def Let_def FilterAnnotations_def index_def
      ParseContainerNames_def)

section \<open>Properties of the broker client\<close>

subsection \<open>connect, reconnect, ensureConnection\<close>

declare refusedDial_def [simp]

lemmas amqp_defs = reply_def newHandle_def amqpDial_def connChannel_def connClose_def
  connIsClosed_def channelClose_def channelExchangeDeclare_def channelPublishWithContext_def
  channelQueueDeclare_def setConn_def setChannel_def setClosed_def

lemma marks_append: "marks (xs @ ys) = marks xs @ marks ys"
  by (induction xs rule: marks.induct) simp_all

lemma pattern_simps [simp]:
  "pattern [] = []" "pattern (i # is) = Slept (backoff i) # Dialled # pattern is"
  "pattern (xs @ ys) = pattern xs @ pattern ys"
  by (simp_all add: pattern_def)

lemma connect_closed: "closed (client (snd (snd (connect s)))) = closed (client s)"
  by (simp add: connect_def amqp_defs split: prod.splits option.splits sum.splits dialRemnant.splits)

lemma connect_marks: "marks (fst (snd (connect s))) = [Dialled]"
  by (simp add: connect_def amqp_defs split: prod.splits option.splits sum.splits dialRemnant.splits)

lemma connect_dials: "filter isDial (fst (snd (connect s))) = [Dial (url (client s))]"
  by (simp add: connect_def amqp_defs split: prod.splits option.splits sum.splits dialRemnant.splits)

lemma connect_no_publish:
  "filter isExchangeDeclare (fst (snd (connect s))) = []"
  "filter isBasicPublish (fst (snd (connect s))) = []"
  by (simp_all add: connect_def amqp_defs split: prod.splits option.splits sum.splits dialRemnant.splits)

lemma connect_success:
  "fst (connect s) = None \<Longrightarrow>
     \<exists>h ch. fst (snd (connect s)) = [Dial (url (client s)), OpenChannel h]
       \<and> conn (client (snd (snd (connect s)))) = Some h
       \<and> channel (client (snd (snd (connect s)))) = Some ch"
  by (simp add: connect_def amqp_defs split: prod.splits option.splits sum.splits dialRemnant.splits)

text \<open>A dial whose handshake fails leaves the closed connection it returned in
  \<open>c.conn\<close>.\<close>

lemma connect_handshake_failed:
  "answers s (calls s) = Some err \<Longrightarrow> remnants s (calls s) = ClosedConnection \<Longrightarrow>
     connect s =
       (Some (''failed to connect to RabbitMQ: '' @ err), [Dial (url (client s))],
        s\<lparr>calls := Suc (calls s), fresh := Suc (fresh s), dead := insert (fresh s) (dead s),
          client := (client s)\<lparr>conn := Some (fresh s)\<rparr>\<rparr>)"
  by (simp add: connect_def amqp_defs)

lemma reconnect_closeStale:
  "reconnect s =
     (fst (connect (snd (closeStale s))),
      fst (closeStale s) @ fst (snd (connect (snd (closeStale s)))),
      snd (snd (connect (snd (closeStale s)))))"
  by (simp add: reconnect_def closeStale_def Let_def split: prod.splits option.splits)

lemma closeStale_client: "client (snd (closeStale s)) = client s"
  by (simp add: closeStale_def amqp_defs Let_def split: prod.splits option.splits)

lemma closeStale_actions:
  "marks (fst (closeStale s)) = []"
  "filter isDial (fst (closeStale s)) = []"
  "filter isExchangeDeclare (fst (closeStale s)) = []"
  "filter isBasicPublish (fst (closeStale s)) = []"
  by (simp_all add: closeStale_def amqp_defs Let_def split: prod.splits option.splits)

lemma reconnect_closed: "closed (client (snd (snd (reconnect s)))) = closed (client s)"
  by (simp add: reconnect_closeStale connect_closed closeStale_client)

lemma reconnect_marks: "marks (fst (snd (reconnect s))) = [Dialled]"
  by (simp add: reconnect_closeStale marks_append connect_marks closeStale_actions)

text \<open>Every call of reconnect dials exactly once.\<close>

lemma reconnect_dials: "filter isDial (fst (snd (reconnect s))) = [Dial (url (client s))]"
  by (simp add: reconnect_closeStale connect_dials closeStale_actions closeStale_client)

lemma reconnect_no_publish:
  "filter isExchangeDeclare (fst (snd (reconnect s))) = []"
  "filter isBasicPublish (fst (snd (reconnect s))) = []"
  by (simp_all add: reconnect_closeStale connect_no_publish closeStale_actions)

lemma reconnect_success:
  assumes "fst (reconnect s) = None"
  shows "\<exists>pre h ch. fst (snd (reconnect s)) = pre @ [Dial (url (client s)), OpenChannel h]
       \<and> conn (client (snd (snd (reconnect s)))) = Some h
       \<and> channel (client (snd (snd (reconnect s)))) = Some ch"
proof -
  from assms have "fst (connect (snd (closeStale s))) = None"
    by (simp add: reconnect_closeStale)
  from connect_success[OF this] show ?thesis
    by (auto simp: reconnect_closeStale closeStale_client)
qed

lemma ensureConnection_closed:
  "closed (client (snd (snd (ensureConnection s)))) = closed (client s)"
  by (simp add: ensureConnection_def reconnect_closed)

lemma ensureConnection_dials: "length (filter isDial (fst (snd (ensureConnection s)))) \<le> 1"
  by (simp add: ensureConnection_def reconnect_dials)

lemma ensureConnection_no_publish:
  "filter isExchangeDeclare (fst (snd (ensureConnection s))) = []"
  "filter isBasicPublish (fst (snd (ensureConnection s))) = []"
  by (simp_all add: ensureConnection_def reconnect_no_publish)

text \<open>ensureConnection never reads the field \<open>closed\<close>: it does the same, with the same
  result, whether the flag is set or not, and it dials whenever the client has no open
  connection or no channel.\<close>

lemma connect_setClosed:
  "connect (setClosed b s) =
     (fst (connect s), fst (snd (connect s)), setClosed b (snd (snd (connect s))))"
  by (simp add: connect_def amqp_defs split: prod.splits option.splits sum.splits dialRemnant.splits)

lemma closeStale_setClosed:
  "closeStale (setClosed b s) = (fst (closeStale s), setClosed b (snd (closeStale s)))"
  by (simp add: closeStale_def amqp_defs Let_def split: prod.splits option.splits)

lemma reconnect_setClosed:
  "reconnect (setClosed b s) =
     (fst (reconnect s), fst (snd (reconnect s)), setClosed b (snd (snd (reconnect s))))"
  by (simp add: reconnect_closeStale closeStale_setClosed connect_setClosed)

lemma setClosed_fields:
  "conn (client (setClosed b s)) = conn (client s)"
  "channel (client (setClosed b s)) = channel (client s)"
  "dead (setClosed b s) = dead s"
  by (simp_all add: setClosed_def)

lemma ensureConnection_setClosed:
  "ensureConnection (setClosed b s) =
     (fst (ensureConnection s), fst (snd (ensureConnection s)),
      setClosed b (snd (snd (ensureConnection s))))"
  by (cases "conn (client s)")
    (simp_all add: ensureConnection_def reconnect_setClosed connIsClosed_def setClosed_fields)

lemma ensureConnection_dials_when_down:
  "conn (client s) = None \<or> (\<exists>h. conn (client s) = Some h \<and> h \<in> dead s)
     \<or> channel (client s) = None
   \<Longrightarrow> filter isDial (fst (snd (ensureConnection s))) = [Dial (url (client s))]"
  by (auto simp: ensureConnection_def reconnect_dials amqp_defs)

text \<open>The state \<open>connected f\<close> is the one NewClient leaves on a broker that accepts the
  dial and the channel.\<close>

lemma NewClient_connected:
  "f 0 = None \<Longrightarrow> f (Suc 0) = None \<Longrightarrow>
     NewClient id ''amqp://test'' (blank f) =
       (None, [Dial ''amqp://test'', OpenChannel 0, Watch (Some 0)], connected f)"
  by (simp add: NewClient_def connect_def blank_def connected_def watchConnection_def amqp_defs)

text \<open>
  C1. The specification asks that after Close every call of ensureConnection fails with a
  "closed" condition without network I/O. The code does not do so: ensureConnection has no
  check of \<open>closed\<close>, unlike reconnectWithBackoff, which checks it before it calls
  reconnect. After NewClient and a successful Close on a reachable broker, ensureConnection
  finds the connection closed, closes the old channel, dials, opens a channel and returns
  success; on the client of the tests, closed and never connected, it dials and reports the
  failure of the dial, not a closed client.
\<close>

theorem C1_ensureConnection_after_Close:
  "fst (Close (connected reachable)) = None
   \<and> closed (client (snd (snd (Close (connected reachable)))))
   \<and> fst (ensureConnection (snd (snd (Close (connected reachable))))) = None
   \<and> fst (snd (ensureConnection (snd (snd (Close (connected reachable))))))
       = [CloseChannel 1, Dial ''amqp://test'', OpenChannel 2]
   \<and> filter networkIO (fst (snd (ensureConnection (snd (snd (Close (connected reachable)))))))
       \<noteq> []
   \<and> fst (ensureConnection (setClosed True (blank unreachable)))
       = Some ''failed to connect to RabbitMQ: connection refused''
   \<and> fst (snd (ensureConnection (setClosed True (blank unreachable)))) = [Dial ''amqp://test'']"
  by (simp add: Close_def ensureConnection_def reconnect_def connect_def connected_def blank_def
      reachable_def unreachable_def amqp_defs Let_def)

subsection \<open>HealthCheck\<close>

lemma HealthCheck_client: "client (snd (snd (HealthCheck s))) = client s"
  by (simp add: HealthCheck_def amqp_defs split: prod.splits option.splits)

text \<open>
  C7. HealthCheck leaves the fields of the client (conn, channel, url, closed) as they are
  and closes no connection; it never dials, so it never reconnects: it performs no action
  when the connection is nil or reports itself closed or the channel is nil, and the single
  queue declaration otherwise. It returns success exactly when connection and channel are
  there, the connection does not report itself closed and the broker accepts the queue
  declaration; in every other case it returns a failure.
\<close>

theorem C7_HealthCheck:
  "client (snd (snd (HealthCheck s))) = client s
   \<and> dead (snd (snd (HealthCheck s))) = dead s
   \<and> filter isDial (fst (snd (HealthCheck s))) = []
   \<and> fst (snd (HealthCheck s)) =
       (case (conn (client s), channel (client s)) of
          (Some h, Some ch) \<Rightarrow> if h \<in> dead s then [] else [QueueDeclare ch]
        | _ \<Rightarrow> [])
   \<and> (fst (HealthCheck s) = None) =
       (\<exists>h ch. conn (client s) = Some h \<and> h \<notin> dead s \<and> channel (client s) = Some ch
          \<and> answers s (calls s) = None)"
  by (auto simp: HealthCheck_def amqp_defs split: prod.splits option.splits)

subsection \<open>Close\<close>

lemma Close_closed: "closed (client (snd (snd (Close s))))"
  by (simp add: Close_def amqp_defs Let_def split: prod.splits option.splits)

text \<open>
  C5, as the specification states it, makes Close idempotent: a second call after a
  completed shutdown is a no-op that returns success. Close has no check of \<open>closed\<close>:
  the second call closes channel and connection again, and it fails when the library
  reports them closed already.
\<close>

theorem C5_second_Close_fails:
  "fst (Close (connected alreadyClosed)) = None
   \<and> fst (Close (snd (snd (Close (connected alreadyClosed)))))
       = Some (''failed to close channel: channel/connection is not open''
               @ ''; failed to close connection: channel/connection is not open'')
   \<and> fst (snd (Close (snd (snd (Close (connected alreadyClosed))))))
       = [CloseChannel 1, CloseConn 0]"
  by (simp add: Close_def connected_def alreadyClosed_def amqp_defs Let_def)

text \<open>
  C5, amended. Close sets the shutdown flag and leaves conn and channel as they are; it
  closes the channel, if there is one, and then the connection, if there is one, also when
  closing the channel failed; it returns the errors of the two close operations concatenated
  into one failure, and success when neither fails. A second call is not a no-op: it
  attempts the same close operations again and returns what they report. Only a client with
  neither connection nor channel is closed without any action and always with success.
\<close>

theorem C5_Close:
  "closed (client (snd (snd (Close s))))
   \<and> conn (client (snd (snd (Close s)))) = conn (client s)
   \<and> channel (client (snd (snd (Close s)))) = channel (client s)
   \<and> fst (snd (Close s)) =
        (case channel (client s) of None \<Rightarrow> [] | Some ch \<Rightarrow> [CloseChannel ch])
        @ (case conn (client s) of None \<Rightarrow> [] | Some h \<Rightarrow> [CloseConn h])
   \<and> fst (Close s) =
        closeFailure
          (case channel (client s) of None \<Rightarrow> None | Some ch \<Rightarrow> answers s (calls s))
          (case conn (client s) of
             None \<Rightarrow> None
           | Some h \<Rightarrow>
               answers s (case channel (client s) of None \<Rightarrow> calls s | Some ch \<Rightarrow> Suc (calls s)))
   \<and> fst (snd (Close (snd (snd (Close s))))) = fst (snd (Close s))
   \<and> Close (setChannel None (setConn None s))
        = (None, [], setClosed True (setChannel None (setConn None s)))"
  by (auto simp: Close_def amqp_defs Let_def split: prod.splits option.splits)

subsection \<open>The shutdown flag stays set\<close>

lemma publishLocked_closed:
  "closed (client (snd (snd (publishLocked x k b s)))) = closed (client s)"
  by (simp add: publishLocked_def amqp_defs split: prod.splits option.splits sum.splits dialRemnant.splits)

lemma exec_closed: "closed (client s) \<Longrightarrow> closed (client (exec st s))"
  by (cases st)
    (simp_all add: ensureConnection_closed publishLocked_closed HealthCheck_client Close_closed
      reconnect_closed)

lemma run_closed: "closed (client s) \<Longrightarrow> closed (client (run steps s))"
  unfolding run_def by (induction steps arbitrary: s) (simp_all add: exec_closed)

text \<open>
  C10. Close sets the flag \<open>closed\<close> before it closes channel and connection (it does
  what it would do on a client whose flag is set already), and the flag is set when Close
  returns, whether with an error or without. No step of the client clears it, so after any
  Close and any further steps of any goroutines, a close-watcher that receives an abnormal
  close notification returns at its check of the flag, having performed nothing: it does
  not start the retry sequence.
\<close>

theorem C10_closed_stops_watcher:
  "Close s = Close (setClosed True s)
   \<and> closed (client (snd (snd (Close s))))
   \<and> closed (client (run steps (snd (snd (Close s)))))
   \<and> watcher env (Some err) (run steps (snd (snd (Close s))))
       = (ClientClosed, [], run steps (snd (snd (Close s))))"
proof -
  have "Close s = Close (setClosed True s)"
    by (simp add: Close_def setClosed_def)
  then show ?thesis
    by (simp add: watcher_def Close_closed run_closed)
qed

subsection \<open>Publish\<close>

lemma publishLocked_actions:
  "filter isDial (fst (snd (publishLocked x k b s))) = []"
  "length (filter isExchangeDeclare (fst (snd (publishLocked x k b s)))) \<le> 1"
  "length (filter isBasicPublish (fst (snd (publishLocked x k b s)))) \<le> 1"
  by (simp_all add: publishLocked_def amqp_defs split: prod.splits option.splits sum.splits dialRemnant.splits)

lemma Publish_ensure_failed:
  "fst (ensureConnection s) = Some err \<Longrightarrow>
     Publish env x k b s =
       (Return (Some (''failed to ensure connection: '' @ err)),
        fst (snd (ensureConnection s)), snd (snd (ensureConnection s)))"
  by (cases "ensureConnection s") (simp add: Publish_def)

lemma Publish_ensure_ok:
  "fst (ensureConnection s) = None \<Longrightarrow>
     Publish env x k b s =
       (fst (publishLocked x k b (env (snd (snd (ensureConnection s))))),
        fst (snd (ensureConnection s))
          @ fst (snd (publishLocked x k b (env (snd (snd (ensureConnection s)))))),
        snd (snd (publishLocked x k b (env (snd (snd (ensureConnection s)))))))"
  by (cases "ensureConnection s") (simp add: Publish_def split: prod.splits)

lemma Publish_prefix:
  "prefix (fst (snd (ensureConnection s))) (fst (snd (Publish env x k b s)))"
  by (cases "fst (ensureConnection s)") (simp_all add: Publish_ensure_failed Publish_ensure_ok)

lemma Publish_dials: "length (filter isDial (fst (snd (Publish env x k b s)))) \<le> 1"
  using ensureConnection_dials[of s]
  by (cases "fst (ensureConnection s)")
    (simp_all add: Publish_ensure_failed Publish_ensure_ok publishLocked_actions)

lemma Publish_declares:
  "length (filter isExchangeDeclare (fst (snd (Publish env x k b s)))) \<le> 1"
  using publishLocked_actions(2)[of x k b "env (snd (snd (ensureConnection s)))"]
  by (cases "fst (ensureConnection s)")
    (simp_all add: Publish_ensure_failed Publish_ensure_ok ensureConnection_no_publish)

lemma Publish_sends:
  "length (filter isBasicPublish (fst (snd (Publish env x k b s)))) \<le> 1"
  using publishLocked_actions(3)[of x k b "env (snd (snd (ensureConnection s)))"]
  by (cases "fst (ensureConnection s)")
    (simp_all add: Publish_ensure_failed Publish_ensure_ok ensureConnection_no_publish)

lemma publishLocked_declare_failed:
  "channel (client s) = Some ch \<Longrightarrow> answers s (calls s) = Some err \<Longrightarrow>
     fst (publishLocked x k b s) = Return (Some (''failed to declare exchange: '' @ err))
     \<and> fst (snd (publishLocked x k b s)) = [ExchangeDeclare ch x]"
  by (simp add: publishLocked_def amqp_defs)

lemma publishLocked_marshal_failed:
  "channel (client s) = Some ch \<Longrightarrow> answers s (calls s) = None \<Longrightarrow>
     fst (publishLocked x k (Inl err) s) = Return (Some (''failed to marshal message: '' @ err))
     \<and> fst (snd (publishLocked x k (Inl err) s)) = [ExchangeDeclare ch x]"
  by (simp add: publishLocked_def amqp_defs)

lemma publishLocked_send:
  "channel (client s) = Some ch \<Longrightarrow> answers s (calls s) = None \<Longrightarrow>
     fst (publishLocked x k (Inr payload) s) =
       Return (case answers s (Suc (calls s)) of
                 None \<Rightarrow> None
               | Some err \<Rightarrow> Some (''failed to publish message: '' @ err))
     \<and> fst (snd (publishLocked x k (Inr payload) s))
         = [ExchangeDeclare ch x, BasicPublish ch x k payload]"
  by (simp add: publishLocked_def amqp_defs split: option.splits)

text \<open>
  C6. Publish calls ensureConnection first. If that fails, Publish returns its error
  wrapped, has performed nothing but what ensureConnection did, and has neither declared
  the exchange nor sent. One call of Publish dials at most once, declares the exchange at
  most once and sends at most once: a failure of the declaration or of the send is
  returned wrapped, the declaration without a send after it, and nothing is tried again.
\<close>

theorem C6_Publish:
  "prefix (fst (snd (ensureConnection s))) (fst (snd (Publish env x k b s)))
   \<and> (\<forall>err. fst (ensureConnection s) = Some err \<longrightarrow>
         Publish env x k b s =
           (Return (Some (''failed to ensure connection: '' @ err)),
            fst (snd (ensureConnection s)), snd (snd (ensureConnection s)))
         \<and> filter isExchangeDeclare (fst (snd (Publish env x k b s))) = []
         \<and> filter isBasicPublish (fst (snd (Publish env x k b s))) = [])
   \<and> length (filter isDial (fst (snd (Publish env x k b s)))) \<le> 1
   \<and> length (filter isExchangeDeclare (fst (snd (Publish env x k b s)))) \<le> 1
   \<and> length (filter isBasicPublish (fst (snd (Publish env x k b s)))) \<le> 1
   \<and> (\<forall>ch err.
         fst (ensureConnection s) = None
         \<and> channel (client (env (snd (snd (ensureConnection s))))) = Some ch
         \<and> answers (env (snd (snd (ensureConnection s))))
              (calls (env (snd (snd (ensureConnection s))))) = Some err \<longrightarrow>
         fst (Publish env x k b s) = Return (Some (''failed to declare exchange: '' @ err))
         \<and> fst (snd (Publish env x k b s))
             = fst (snd (ensureConnection s)) @ [ExchangeDeclare ch x])
   \<and> (\<forall>ch payload err.
         fst (ensureConnection s) = None
         \<and> channel (client (env (snd (snd (ensureConnection s))))) = Some ch
         \<and> answers (env (snd (snd (ensureConnection s))))
              (calls (env (snd (snd (ensureConnection s))))) = None
         \<and> b = Inr payload
         \<and> answers (env (snd (snd (ensureConnection s))))
              (Suc (calls (env (snd (snd (ensureConnection s)))))) = Some err \<longrightarrow>
         fst (Publish env x k b s) = Return (Some (''failed to publish message: '' @ err))
         \<and> fst (snd (Publish env x k b s))
             = fst (snd (ensureConnection s))
               @ [ExchangeDeclare ch x, BasicPublish ch x k payload])"
proof (intro conjI allI impI)
  show "prefix (fst (snd (ensureConnection s))) (fst (snd (Publish env x k b s)))"
    by (rule Publish_prefix)
  show "length (filter isDial (fst (snd (Publish env x k b s)))) \<le> 1"
    "length (filter isExchangeDeclare (fst (snd (Publish env x k b s)))) \<le> 1"
    "length (filter isBasicPublish (fst (snd (Publish env x k b s)))) \<le> 1"
    by (rule Publish_dials Publish_declares Publish_sends)+
next
  fix err assume e: "fst (ensureConnection s) = Some err"
  show "Publish env x k b s =
           (Return (Some (''failed to ensure connection: '' @ err)),
            fst (snd (ensureConnection s)), snd (snd (ensureConnection s)))"
    by (rule Publish_ensure_failed[OF e])
  show "filter isExchangeDeclare (fst (snd (Publish env x k b s))) = []"
    "filter isBasicPublish (fst (snd (Publish env x k b s))) = []"
    by (simp_all add: Publish_ensure_failed[OF e] ensureConnection_no_publish)
next
  fix ch err
  assume a: "fst (ensureConnection s) = None
         \<and> channel (client (env (snd (snd (ensureConnection s))))) = Some ch
         \<and> answers (env (snd (snd (ensureConnection s))))
              (calls (env (snd (snd (ensureConnection s))))) = Some err"
  then show "fst (Publish env x k b s) = Return (Some (''failed to declare exchange: '' @ err))"
    "fst (snd (Publish env x k b s)) = fst (snd (ensureConnection s)) @ [ExchangeDeclare ch x]"
    by (simp_all add: Publish_ensure_ok publishLocked_declare_failed)
next
  fix ch payload err
  assume a: "fst (ensureConnection s) = None
         \<and> channel (client (env (snd (snd (ensureConnection s))))) = Some ch
         \<and> answers (env (snd (snd (ensureConnection s))))
              (calls (env (snd (snd (ensureConnection s))))) = None
         \<and> b = Inr payload
         \<and> answers (env (snd (snd (ensureConnection s))))
              (Suc (calls (env (snd (snd (ensureConnection s)))))) = Some err"
  then show "fst (Publish env x k b s) = Return (Some (''failed to publish message: '' @ err))"
    "fst (snd (Publish env x k b s))
       = fst (snd (ensureConnection s)) @ [ExchangeDeclare ch x, BasicPublish ch x k payload]"
    by (simp_all add: Publish_ensure_ok publishLocked_send)
qed

lemma ensure_blank_unreachable:
  "ensureConnection (blank unreachable) =
     (Some ''failed to connect to RabbitMQ: connection refused'', [Dial ''amqp://test''],
      (blank unreachable)\<lparr>calls := 1\<rparr>)"
  by (simp add: ensureConnection_def reconnect_def connect_def blank_def unreachable_def
      amqp_defs Let_def)

lemma ensure_connected: "ensureConnection (connected f) = (None, [], connected f)"
  by (simp add: ensureConnection_def connected_def amqp_defs)

text \<open>C6 on an unreachable broker, on a broker that rejects the declaration and on one
  that rejects the send.\<close>

theorem C6_Publish_witness:
  "fst (ensureConnection (blank unreachable))
     = Some ''failed to connect to RabbitMQ: connection refused''
   \<and> Publish id ''certificate-events'' ''certificate.renewed'' (Inr ''{}'') (blank unreachable)
     = (Return (Some ''failed to ensure connection: failed to connect to RabbitMQ: connection refused''),
        [Dial ''amqp://test''], (blank unreachable)\<lparr>calls := 1\<rparr>)
   \<and> fst (ensureConnection (connected (rejecting 2))) = None
   \<and> channel (client (id (snd (snd (ensureConnection (connected (rejecting 2))))))) = Some 1
   \<and> answers (id (snd (snd (ensureConnection (connected (rejecting 2))))))
        (calls (id (snd (snd (ensureConnection (connected (rejecting 2)))))))
       = Some ''access refused''
   \<and> fst (Publish id ''certificate-events'' ''certificate.renewed'' (Inr ''{}'')
            (connected (rejecting 2)))
       = Return (Some ''failed to declare exchange: access refused'')
   \<and> fst (snd (Publish id ''certificate-events'' ''certificate.renewed'' (Inr ''{}'')
            (connected (rejecting 2))))
       = [ExchangeDeclare 1 ''certificate-events'']
   \<and> fst (ensureConnection (connected (rejecting 3))) = None
   \<and> answers (id (snd (snd (ensureConnection (connected (rejecting 3))))))
        (Suc (calls (id (snd (snd (ensureConnection (connected (rejecting 3))))))))
       = Some ''access refused''
   \<and> fst (Publish id ''certificate-events'' ''certificate.renewed'' (Inr ''{}'')
            (connected (rejecting 3)))
       = Return (Some ''failed to publish message: access refused'')
   \<and> fst (snd (Publish id ''certificate-events'' ''certificate.renewed'' (Inr ''{}'')
            (connected (rejecting 3))))
       = [ExchangeDeclare 1 ''certificate-events'',
          BasicPublish 1 ''certificate-events'' ''certificate.renewed'' ''{}'']"
proof -
  let ?pub = "Publish id ''certificate-events'' ''certificate.renewed'' (Inr ''{}'')"
  have e1: "fst (ensureConnection (blank unreachable))
      = Some ''failed to connect to RabbitMQ: connection refused''"
    unfolding ensure_blank_unreachable by simp
  have p1: "?pub (blank unreachable)
      = (Return (Some ''failed to ensure connection: failed to connect to RabbitMQ: connection refused''),
         [Dial ''amqp://test''], (blank unreachable)\<lparr>calls := 1\<rparr>)"
    using C6_Publish[of "blank unreachable" id "''certificate-events''" "''certificate.renewed''"
        "Inr ''{}''", THEN conjunct2, THEN conjunct1, rule_format, OF e1]
    unfolding ensure_blank_unreachable by simp
  have e2: "fst (ensureConnection (connected (rejecting 2))) = None"
    and c2: "channel (client (id (snd (snd (ensureConnection (connected (rejecting 2))))))) = Some 1"
    and a2: "answers (id (snd (snd (ensureConnection (connected (rejecting 2))))))
        (calls (id (snd (snd (ensureConnection (connected (rejecting 2)))))))
       = Some ''access refused''"
    unfolding ensure_connected by (simp_all add: connected_def rejecting_def)
  have p2: "fst (?pub (connected (rejecting 2)))
       = Return (Some ''failed to declare exchange: access refused'')
     \<and> fst (snd (?pub (connected (rejecting 2)))) = [ExchangeDeclare 1 ''certificate-events'']"
    using C6_Publish[of "connected (rejecting 2)" id "''certificate-events''"
        "''certificate.renewed''" "Inr ''{}''", THEN conjunct2, THEN conjunct2, THEN conjunct2,
        THEN conjunct2, THEN conjunct2, THEN conjunct1, rule_format,
        OF conjI[OF e2 conjI[OF c2 a2]]]
    unfolding ensure_connected by simp
  have e3: "fst (ensureConnection (connected (rejecting 3))) = None"
    and c3: "channel (client (id (snd (snd (ensureConnection (connected (rejecting 3))))))) = Some 1"
    and a3: "answers (id (snd (snd (ensureConnection (connected (rejecting 3))))))
        (calls (id (snd (snd (ensureConnection (connected (rejecting 3))))))) = None"
    and b3: "answers (id (snd (snd (ensureConnection (connected (rejecting 3))))))
        (Suc (calls (id (snd (snd (ensureConnection (connected (rejecting 3))))))))
       = Some ''access refused''"
    unfolding ensure_connected by (simp_all add: connected_def rejecting_def)
  have i3: "(Inr ''{}'' :: error + string) = Inr ''{}''" by simp
  have p3: "fst (?pub (connected (rejecting 3)))
       = Return (Some ''failed to publish message: access refused'')
     \<and> fst (snd (?pub (connected (rejecting 3))))
       = [ExchangeDeclare 1 ''certificate-events'',
          BasicPublish 1 ''certificate-events'' ''certificate.renewed'' ''{}'']"
    using C6_Publish[of "connected (rejecting 3)" id "''certificate-events''"
        "''certificate.renewed''" "Inr ''{}''", THEN conjunct2, THEN conjunct2, THEN conjunct2,
        THEN conjunct2, THEN conjunct2, THEN conjunct2, rule_format,
        OF conjI[OF e3 conjI[OF c3 conjI[OF a3 conjI[OF i3 b3]]]]]
    unfolding ensure_connected by simp
  from e1 p1 e2 c2 a2 p2 e3 b3 p3 show ?thesis by (intro conjI) (simp_all only:)
qed

subsection \<open>The retry sequence\<close>

lemma errors_distinct: "closedDuringReconnection \<noteq> reconnectExhausted"
  by (simp add: closedDuringReconnection_def reconnectExhausted_def)

lemma attempts_Cons_closed:
  "closed (client (env i s)) \<Longrightarrow>
     attempts env (i # rest) s = (Some closedDuringReconnection, [Sleep (backoff i)], env i s)"
  by (simp add: Let_def)

lemma attempts_Cons_success:
  "\<not> closed (client (env i s)) \<Longrightarrow> fst (reconnect (env i s)) = None \<Longrightarrow>
     attempts env (i # rest) s =
       (None,
        Sleep (backoff i) # fst (snd (reconnect (env i s)))
          @ [Watch (conn (client (env (Suc i) (snd (snd (reconnect (env i s)))))))],
        snd (snd (reconnect (env i s))))"
  by (cases "reconnect (env i s)") (simp add: Let_def watchConnection_def)

lemma attempts_Cons_failure:
  "\<not> closed (client (env i s)) \<Longrightarrow> fst (reconnect (env i s)) = Some err \<Longrightarrow>
     attempts env (i # rest) s =
       (fst (attempts env rest (snd (snd (reconnect (env i s))))),
        Sleep (backoff i) # fst (snd (reconnect (env i s)))
          @ fst (snd (attempts env rest (snd (snd (reconnect (env i s)))))),
        snd (snd (attempts env rest (snd (snd (reconnect (env i s)))))))"
  by (cases "reconnect (env i s)") (simp add: Let_def split: prod.splits)

declare attempts.simps(2) [simp del]

lemma attempts_cases:
  obtains (closed) "closed (client (env i s))"
  | (success) "\<not> closed (client (env i s))" "fst (reconnect (env i s)) = None"
  | (failure) err where "\<not> closed (client (env i s))" "fst (reconnect (env i s)) = Some err"
  by (cases "fst (reconnect (env i s))") auto

lemma attempts_shape:
  "(\<exists>pre j rest. is = pre @ j # rest \<and>
      (fst (attempts env is s) = Some closedDuringReconnection
         \<and> marks (fst (snd (attempts env is s))) = pattern pre @ [Slept (backoff j)]
       \<or> fst (attempts env is s) = None
         \<and> marks (fst (snd (attempts env is s))) = pattern (pre @ [j]) @ [Watching]))
   \<or> fst (attempts env is s) = Some reconnectExhausted
       \<and> marks (fst (snd (attempts env is s))) = pattern is"
proof (induction "is" arbitrary: s)
  case Nil
  show ?case by simp
next
  case (Cons i rest)
  show ?case
  proof (cases rule: attempts_cases[of env i s])
    case closed
    have "i # rest = [] @ i # rest" by simp
    moreover have "fst (attempts env (i # rest) s) = Some closedDuringReconnection"
      "marks (fst (snd (attempts env (i # rest) s))) = pattern [] @ [Slept (backoff i)]"
      by (simp_all add: attempts_Cons_closed[of env i s, OF closed])
    ultimately show ?thesis by blast
  next
    case success
    have "i # rest = [] @ i # rest" by simp
    moreover have "fst (attempts env (i # rest) s) = None"
      "marks (fst (snd (attempts env (i # rest) s))) = pattern ([] @ [i]) @ [Watching]"
      by (simp_all add: attempts_Cons_success[of env i s, OF success] marks_append reconnect_marks)
    ultimately show ?thesis by blast
  next
    case (failure err)
    let ?s' = "snd (snd (reconnect (env i s)))"
    note eq = attempts_Cons_failure[of env i s err rest, OF failure]
    have m: "marks (fst (snd (attempts env (i # rest) s)))
        = Slept (backoff i) # Dialled # marks (fst (snd (attempts env rest ?s')))"
      by (simp add: eq marks_append reconnect_marks)
    have r: "fst (attempts env (i # rest) s) = fst (attempts env rest ?s')"
      by (simp add: eq)
    from Cons.IH[of ?s'] show ?thesis
    proof (elim disjE exE conjE)
      fix pre j rest'
      assume a: "rest = pre @ j # rest'"
        and b: "fst (attempts env rest ?s') = Some closedDuringReconnection"
        and c: "marks (fst (snd (attempts env rest ?s'))) = pattern pre @ [Slept (backoff j)]"
      have "i # rest = (i # pre) @ j # rest'" using a by simp
      moreover have "fst (attempts env (i # rest) s) = Some closedDuringReconnection"
        using b r by simp
      moreover have "marks (fst (snd (attempts env (i # rest) s)))
          = pattern (i # pre) @ [Slept (backoff j)]"
        using c m by simp
      ultimately show ?thesis by blast
    next
      fix pre j rest'
      assume a: "rest = pre @ j # rest'"
        and b: "fst (attempts env rest ?s') = None"
        and c: "marks (fst (snd (attempts env rest ?s'))) = pattern (pre @ [j]) @ [Watching]"
      have "i # rest = (i # pre) @ j # rest'" using a by simp
      moreover have "fst (attempts env (i # rest) s) = None"
        using b r by simp
      moreover have "marks (fst (snd (attempts env (i # rest) s)))
          = pattern ((i # pre) @ [j]) @ [Watching]"
        using c m by simp
      ultimately show ?thesis by blast
    next
      assume "fst (attempts env rest ?s') = Some reconnectExhausted"
        "marks (fst (snd (attempts env rest ?s'))) = pattern rest"
      then show ?thesis by (simp add: m r)
    qed
  qed
qed

lemma attempts_dials: "length (filter isDial (fst (snd (attempts env is s)))) \<le> length is"
proof (induction "is" arbitrary: s)
  case Nil
  show ?case by simp
next
  case (Cons i rest)
  show ?case
  proof (cases rule: attempts_cases[of env i s])
    case closed
    then show ?thesis by (simp add: attempts_Cons_closed)
  next
    case success
    then show ?thesis by (simp add: attempts_Cons_success reconnect_dials)
  next
    case (failure err)
    with Cons.IH[of "snd (snd (reconnect (env i s)))"] show ?thesis
      by (simp add: attempts_Cons_failure reconnect_dials)
  qed
qed

lemma attempts_closed:
  "fst (attempts env is s) = Some closedDuringReconnection \<Longrightarrow>
     (\<exists>front d. fst (snd (attempts env is s)) = front @ [Sleep d])
     \<and> closed (client (snd (snd (attempts env is s))))"
proof (induction "is" arbitrary: s)
  case Nil
  then show ?case by (simp add: errors_distinct[symmetric])
next
  case (Cons i rest)
  show ?case
  proof (cases rule: attempts_cases[of env i s])
    case closed
    then show ?thesis by (simp add: attempts_Cons_closed)
  next
    case success
    with Cons.prems show ?thesis by (simp add: attempts_Cons_success)
  next
    case (failure err)
    let ?s' = "snd (snd (reconnect (env i s)))"
    note eq = attempts_Cons_failure[of env i s err rest, OF failure]
    from Cons.prems have "fst (attempts env rest ?s') = Some closedDuringReconnection"
      by (simp add: eq)
    from Cons.IH[OF this] obtain front d where
      "fst (snd (attempts env rest ?s')) = front @ [Sleep d]"
      "closed (client (snd (snd (attempts env rest ?s'))))"
      by blast
    then have "fst (snd (attempts env (i # rest) s))
        = (Sleep (backoff i) # fst (snd (reconnect (env i s))) @ front) @ [Sleep d]"
      "closed (client (snd (snd (attempts env (i # rest) s))))"
      by (simp_all add: eq)
    then show ?thesis by blast
  qed
qed

lemma attempts_abort:
  assumes "\<forall>t. closed (client (env k t))"
  shows "k \<in> set is \<Longrightarrow>
     fst (attempts env is s) \<noteq> Some reconnectExhausted
     \<and> length (filter isDial (fst (snd (attempts env is s))))
         \<le> length (takeWhile (\<lambda>i. i \<noteq> k) is)"
proof (induction "is" arbitrary: s)
  case Nil
  then show ?case by simp
next
  case (Cons i rest)
  show ?case
  proof (cases rule: attempts_cases[of env i s])
    case closed
    then show ?thesis by (simp add: attempts_Cons_closed errors_distinct)
  next
    case success
    with assms have "i \<noteq> k" by auto
    with success show ?thesis by (simp add: attempts_Cons_success reconnect_dials)
  next
    case (failure err)
    with assms have "i \<noteq> k" by auto
    with Cons.prems have "k \<in> set rest" by simp
    from Cons.IH[OF this, of "snd (snd (reconnect (env i s)))"] \<open>i \<noteq> k\<close> failure
    show ?thesis by (simp add: attempts_Cons_failure reconnect_dials)
  qed
qed

lemma upt_5: "[0..<5] = [0, 1, 2, 3, 4::nat]"
  by (simp add: upt_rec)

lemma upt_5_split:
  assumes "[0..<5] = pre @ j # rest"
  shows "j < 5 \<and> pre = [0..<j]"
proof -
  have l: "length pre < 5" using arg_cong[OF assms, of length] by simp
  have "j = [0..<5] ! length pre" by (simp add: assms)
  with l have j: "j = length pre" by simp
  have "pre = take (length pre) [0..<5]" by (simp add: assms)
  with l have "pre = [0..<length pre]" by (simp add: take_upt)
  with l j show ?thesis by simp
qed

lemma backoff_mono: "mono backoff"
  unfolding backoff_def
  by (intro monoI min.mono mult_le_mono2 power_increasing) simp_all

lemma backoff_capped: "backoff i \<le> maxBackoff"
  by (simp add: backoff_def)

lemma pattern_5:
  "pattern [0..<maxReconnectAttempts] =
     [Slept 1000000000, Dialled, Slept 2000000000, Dialled, Slept 4000000000, Dialled,
      Slept 8000000000, Dialled, Slept 16000000000, Dialled]"
  by (simp add: maxReconnectAttempts_def upt_5 backoff_def initialBackoff_def maxBackoff_def)

lemma run_example:
  "reconnectWithBackoff (closingAt 2) (connected unreachable) =
     (Some closedDuringReconnection,
      [Sleep 1000000000, CloseChannel 1, CloseConn 0, Dial ''amqp://test'',
       Sleep 2000000000, CloseChannel 1, Dial ''amqp://test'', Sleep 4000000000],
      \<lparr>client = \<lparr>conn = None, channel = Some 1, url = ''amqp://test'', closed = True\<rparr>,
       answers = unreachable, remnants = refusedDial, calls = 8, fresh = 2, dead = {0}\<rparr>)"
  by (simp add: reconnectWithBackoff_def maxReconnectAttempts_def upt_5 attempts.simps(2)
      closingAt_def Let_def reconnect_def connect_def Close_def connected_def unreachable_def
      refusedDial_def amqp_defs backoff_def initialBackoff_def maxBackoff_def)


lemma attempts_after_failures:
  "\<forall>i<j. failsAt env s i \<Longrightarrow> j \<le> n \<Longrightarrow>
     attempts env [0..<n] s =
       (fst (attempts env [j..<n] (afterAttempts env j s)),
        failedTrace env j s @ fst (snd (attempts env [j..<n] (afterAttempts env j s))),
        snd (snd (attempts env [j..<n] (afterAttempts env j s))))"
proof (induction j)
  case 0
  show ?case by simp
next
  case (Suc j)
  from Suc.prems have f: "failsAt env s j" and lt: "j < n" by simp_all
  from f obtain err where
    nc: "\<not> closed (client (env j (afterAttempts env j s)))"
    and fl: "fst (reconnect (env j (afterAttempts env j s))) = Some err"
    by (auto simp: failsAt_def atCheck_def)
  from lt have l: "[j..<n] = j # [Suc j..<n]" by (rule upt_conv_Cons)
  from Suc.prems have "\<forall>i<j. failsAt env s i" "j \<le> n" by simp_all
  from Suc.IH[OF this] show ?case
    unfolding l attempts_Cons_failure[of env j "afterAttempts env j s" err, OF nc fl]
    by (simp add: atCheck_def)
qed

lemma run_exhausted:
  assumes "\<forall>i<maxReconnectAttempts. failsAt env s i"
  shows "reconnectWithBackoff env s =
     (Some reconnectExhausted, failedTrace env maxReconnectAttempts s,
      afterAttempts env maxReconnectAttempts s)"
  using attempts_after_failures[OF assms, of maxReconnectAttempts]
  by (simp add: reconnectWithBackoff_def)

lemma run_closed_at:
  assumes "j < maxReconnectAttempts" "\<forall>i<j. failsAt env s i" "closed (client (atCheck env j s))"
  shows "reconnectWithBackoff env s =
     (Some closedDuringReconnection, failedTrace env j s @ [Sleep (backoff j)], atCheck env j s)"
proof -
  from assms(1) have l: "[j..<maxReconnectAttempts] = j # [Suc j..<maxReconnectAttempts]"
    by (rule upt_conv_Cons)
  from assms(3) have c: "closed (client (env j (afterAttempts env j s)))"
    by (simp add: atCheck_def)
  from assms(1) have "j \<le> maxReconnectAttempts" by simp
  from attempts_after_failures[OF assms(2) this] show ?thesis
    unfolding l attempts_Cons_closed[of env j "afterAttempts env j s", OF c]
    by (simp add: reconnectWithBackoff_def atCheck_def)
qed

lemma run_succeeds_at:
  assumes "j < maxReconnectAttempts" "\<forall>i<j. failsAt env s i" "succeedsAt env s j"
  shows "reconnectWithBackoff env s =
     (None,
      failedTrace env j s @ Sleep (backoff j) # fst (snd (reconnect (atCheck env j s)))
        @ [Watch (conn (client (env (Suc j) (afterAttempts env (Suc j) s))))],
      afterAttempts env (Suc j) s)"
proof -
  from assms(1) have l: "[j..<maxReconnectAttempts] = j # [Suc j..<maxReconnectAttempts]"
    by (rule upt_conv_Cons)
  from assms(3) have nc: "\<not> closed (client (env j (afterAttempts env j s)))"
    and ok: "fst (reconnect (env j (afterAttempts env j s))) = None"
    by (simp_all add: succeedsAt_def atCheck_def)
  from assms(1) have "j \<le> maxReconnectAttempts" by simp
  from attempts_after_failures[OF assms(2) this] show ?thesis
    unfolding l attempts_Cons_success[of env j "afterAttempts env j s", OF nc ok]
    by (simp add: reconnectWithBackoff_def atCheck_def)
qed

lemma first_not_failing:
  "(\<forall>i<n. failsAt env s i) \<or> (\<exists>j<n. (\<forall>i<j. failsAt env s i) \<and> \<not> failsAt env s j)"
proof (induction n)
  case 0
  show ?case by simp
next
  case (Suc n)
  then show ?case
  proof
    assume a: "\<forall>i<n. failsAt env s i"
    show ?thesis
    proof (cases "failsAt env s n")
      case True
      with a have "\<forall>i<Suc n. failsAt env s i" by (simp add: less_Suc_eq)
      then show ?thesis ..
    next
      case False
      with a show ?thesis by blast
    qed
  next
    assume "\<exists>j<n. (\<forall>i<j. failsAt env s i) \<and> \<not> failsAt env s j"
    then show ?thesis using less_Suc_eq by auto
  qed
qed

lemma run_cases:
  obtains (exhausted) "\<forall>i<maxReconnectAttempts. failsAt env s i"
  | (closed) j where "j < maxReconnectAttempts" "\<forall>i<j. failsAt env s i"
      "closed (client (atCheck env j s))"
  | (success) j where "j < maxReconnectAttempts" "\<forall>i<j. failsAt env s i" "succeedsAt env s j"
  using first_not_failing[of maxReconnectAttempts env s]
  by (auto simp: failsAt_def succeedsAt_def)

lemma failedTrace_marks: "marks (failedTrace env j s) = pattern [0..<j]"
  by (induction j) (simp_all add: marks_append reconnect_marks)

lemma failedTrace_dials: "length (filter isDial (failedTrace env j s)) = j"
  by (induction j) (simp_all add: reconnect_dials)

lemma closeStale_calls:
  "answers (snd (closeStale t)) = answers t"
  "calls (snd (closeStale t)) =
     calls t + (case channel (client t) of None \<Rightarrow> 0 | Some ch \<Rightarrow> 1)
       + (case conn (client t) of None \<Rightarrow> 0 | Some h \<Rightarrow> if h \<in> dead t then 0 else 1)"
  by (simp_all add: closeStale_def amqp_defs Let_def split: prod.splits option.splits)

lemma connect_succeeds_iff:
  "(fst (connect t) = None) = (answers t (calls t) = None \<and> answers t (Suc (calls t)) = None)"
  by (auto simp: connect_def amqp_defs split: prod.splits option.splits sum.splits dialRemnant.splits)

lemma reconnect_succeeds_iff:
  "(fst (reconnect t) = None) =
     (answers t (calls (snd (closeStale t))) = None
      \<and> answers t (Suc (calls (snd (closeStale t)))) = None)"
  by (simp add: reconnect_closeStale connect_succeeds_iff closeStale_calls(1))


lemma first_dropped_unreachable:
  "reconnect (dropped unreachable) =
     (Some ''failed to connect to RabbitMQ: connection refused'',
      [CloseChannel 1, Dial ''amqp://test''],
      (dropped unreachable)\<lparr>client := (client (dropped unreachable))\<lparr>conn := None\<rparr>, calls := 4\<rparr>)"
  by (simp add: dropped_def connected_def unreachable_def reconnect_def connect_def amqp_defs
      Let_def)

lemma next_dropped_unreachable:
  "reconnect ((dropped unreachable)
       \<lparr>client := (client (dropped unreachable))\<lparr>conn := None\<rparr>, calls := n\<rparr>) =
     (Some ''failed to connect to RabbitMQ: connection refused'',
      [CloseChannel 1, Dial ''amqp://test''],
      (dropped unreachable)
        \<lparr>client := (client (dropped unreachable))\<lparr>conn := None\<rparr>, calls := Suc (Suc n)\<rparr>)"
  by (simp add: dropped_def connected_def unreachable_def reconnect_def connect_def amqp_defs
      Let_def)

lemma after_dropped_unreachable:
  "afterAttempts idle (Suc k) (dropped unreachable) =
     (dropped unreachable)
       \<lparr>client := (client (dropped unreachable))\<lparr>conn := None\<rparr>, calls := 4 + 2 * k\<rparr>"
  by (induction k)
    (simp_all add: idle_def first_dropped_unreachable next_dropped_unreachable)

lemma fails_dropped_unreachable: "failsAt idle (dropped unreachable) i"
proof (cases i)
  case 0
  then show ?thesis
    by (simp add: failsAt_def atCheck_def idle_def first_dropped_unreachable)
      (simp add: dropped_def connected_def)
next
  case (Suc k)
  then show ?thesis
    by (simp add: failsAt_def atCheck_def idle_def after_dropped_unreachable
        next_dropped_unreachable del: afterAttempts.simps)
      (simp add: dropped_def connected_def)
qed

lemma trace_dropped_unreachable:
  "failedTrace idle j (dropped unreachable) =
     concat (map (\<lambda>i. [Sleep (backoff i), CloseChannel 1, Dial ''amqp://test'']) [0..<j])"
proof (induction j)
  case 0
  show ?case by simp
next
  case (Suc j)
  have "fst (snd (reconnect (atCheck idle j (dropped unreachable))))
      = [CloseChannel 1, Dial ''amqp://test'']"
    by (cases j)
      (simp_all add: atCheck_def idle_def first_dropped_unreachable after_dropped_unreachable
        next_dropped_unreachable del: afterAttempts.simps(2))
  with Suc show ?case by simp
qed


lemmas run_defs = reconnect_def connect_def Close_def dropped_def connected_def closingAt_def
  idle_def atCheck_def failsAt_def succeedsAt_def unreachable_def rejecting_def Let_def
  backoff_def initialBackoff_def maxBackoff_def

text \<open>
  C4. Every run of the retry sequence dials at most 5 times. Its sleeps and dials
  alternate, attempt i sleeping \<open>min(1s * 2^i, 30s)\<close> before its dial (1s, 2s, 4s, 8s,
  16s: non-decreasing and never above 30s), and the run ends in one of three ways, decided
  by the first attempt that does not fail. If that attempt j finds the client closed after
  its sleep, the run stops there with the closed error. If its reconnect succeeds, which
  is when the library accepts the dial and the channel opening, the run ends at once with
  success: it has done what the j failed attempts did, the sleep and the reconnect of
  attempt j, and the start of a new close-watcher, and nothing after. If all 5 attempts
  fail, the run has slept and dialled five times and reports "failed to reconnect after 5
  attempts". Conversely, a run that ends with success ended at an attempt whose reconnect
  succeeded, all attempts before it having failed, and a run that reports exhaustion had
  five failed attempts.
\<close>

theorem C4_reconnectWithBackoff:
  "(case reconnectWithBackoff env s of
      (r, acts, s') \<Rightarrow>
        length (filter isDial acts) \<le> maxReconnectAttempts
        \<and> ((\<exists>j<maxReconnectAttempts.
               r = Some closedDuringReconnection
                 \<and> marks acts = pattern [0..<j] @ [Slept (backoff j)]
             \<or> r = None
                 \<and> marks acts = pattern [0..<Suc j] @ [Watching]
                 \<and> (\<exists>front u h.
                       acts = front @ [Dial u, OpenChannel h, Watch (conn (client (env (Suc j) s')))]
                       \<and> conn (client s') = Some h))
           \<or> r = Some reconnectExhausted
               \<and> marks acts = pattern [0..<maxReconnectAttempts]))
   \<and> (\<forall>j<maxReconnectAttempts.
         (\<forall>i<j. failsAt env s i) \<and> succeedsAt env s j \<longrightarrow>
         reconnectWithBackoff env s =
           (None,
            failedTrace env j s @ Sleep (backoff j) # fst (snd (reconnect (atCheck env j s)))
              @ [Watch (conn (client (env (Suc j) (afterAttempts env (Suc j) s))))],
            afterAttempts env (Suc j) s))
   \<and> ((\<forall>i<maxReconnectAttempts. failsAt env s i) \<longrightarrow>
         reconnectWithBackoff env s =
           (Some reconnectExhausted, failedTrace env maxReconnectAttempts s,
            afterAttempts env maxReconnectAttempts s))
   \<and> (\<forall>j<maxReconnectAttempts.
         (\<forall>i<j. failsAt env s i) \<and> closed (client (atCheck env j s)) \<longrightarrow>
         reconnectWithBackoff env s =
           (Some closedDuringReconnection, failedTrace env j s @ [Sleep (backoff j)],
            atCheck env j s))
   \<and> (fst (reconnectWithBackoff env s) = None \<longrightarrow>
         (\<exists>j<maxReconnectAttempts. (\<forall>i<j. failsAt env s i) \<and> succeedsAt env s j))
   \<and> (fst (reconnectWithBackoff env s) = Some reconnectExhausted \<longrightarrow>
         (\<forall>i<maxReconnectAttempts. failsAt env s i))
   \<and> (\<forall>j. marks (failedTrace env j s) = pattern [0..<j]
           \<and> length (filter isDial (failedTrace env j s)) = j)
   \<and> (\<forall>t. (fst (reconnect t) = None) =
           (answers t
              (calls t + (case channel (client t) of None \<Rightarrow> 0 | Some ch \<Rightarrow> 1)
                 + (case conn (client t) of None \<Rightarrow> 0 | Some h \<Rightarrow> if h \<in> dead t then 0 else 1))
              = None
            \<and> answers t
              (Suc (calls t + (case channel (client t) of None \<Rightarrow> 0 | Some ch \<Rightarrow> 1)
                 + (case conn (client t) of None \<Rightarrow> 0 | Some h \<Rightarrow> if h \<in> dead t then 0 else 1)))
              = None))
   \<and> pattern [0..<maxReconnectAttempts] =
       [Slept 1000000000, Dialled, Slept 2000000000, Dialled, Slept 4000000000, Dialled,
        Slept 8000000000, Dialled, Slept 16000000000, Dialled]
   \<and> (\<forall>i. backoff i = min (1000000000 * 2 ^ i) 30000000000)
   \<and> mono backoff
   \<and> (\<forall>i. backoff i \<le> 30000000000)"
proof -
  let ?R = "reconnectWithBackoff env s"
  let ?n = maxReconnectAttempts
  have dials: "length (filter isDial (fst (snd ?R))) \<le> ?n"
    using attempts_dials[of env "[0..<?n]" s] by (simp add: reconnectWithBackoff_def)
  have shape: "(\<exists>j<?n.
               fst ?R = Some closedDuringReconnection
                 \<and> marks (fst (snd ?R)) = pattern [0..<j] @ [Slept (backoff j)]
             \<or> fst ?R = None
                 \<and> marks (fst (snd ?R)) = pattern [0..<Suc j] @ [Watching]
                 \<and> (\<exists>front u h.
                       fst (snd ?R)
                         = front @ [Dial u, OpenChannel h,
                                    Watch (conn (client (env (Suc j) (snd (snd ?R)))))]
                       \<and> conn (client (snd (snd ?R))) = Some h))
           \<or> fst ?R = Some reconnectExhausted
               \<and> marks (fst (snd ?R)) = pattern [0..<?n]"
  proof (cases rule: run_cases[of env s])
    case exhausted
    then show ?thesis
      by (simp add: run_exhausted failedTrace_marks)
  next
    case (closed j)
    then have "fst ?R = Some closedDuringReconnection
        \<and> marks (fst (snd ?R)) = pattern [0..<j] @ [Slept (backoff j)]"
      by (simp add: run_closed_at marks_append failedTrace_marks)
    with closed(1) show ?thesis by blast
  next
    case (success j)
    from success(3) have "fst (reconnect (atCheck env j s)) = None"
      by (simp add: succeedsAt_def)
    from reconnect_success[OF this] obtain pre h ch where
      a: "fst (snd (reconnect (atCheck env j s)))
          = pre @ [Dial (url (client (atCheck env j s))), OpenChannel h]"
      and c: "conn (client (snd (snd (reconnect (atCheck env j s))))) = Some h"
      by blast
    have st: "snd (snd (reconnect (atCheck env j s))) = afterAttempts env (Suc j) s"
      by (simp add: atCheck_def)
    note run = run_succeeds_at[OF success]
    have "fst ?R = None" by (simp add: run)
    moreover have "marks (fst (snd ?R)) = pattern [0..<Suc j] @ [Watching]"
      by (simp add: run marks_append failedTrace_marks reconnect_marks)
    moreover have "fst (snd ?R)
        = (failedTrace env j s @ Sleep (backoff j) # pre)
          @ [Dial (url (client (atCheck env j s))), OpenChannel h,
             Watch (conn (client (env (Suc j) (snd (snd ?R)))))]"
      by (simp add: run a)
    moreover have "conn (client (snd (snd ?R))) = Some h"
      using c by (simp add: run st)
    ultimately show ?thesis using success(1) by blast
  qed
  have none: "fst ?R = None \<longrightarrow> (\<exists>j<?n. (\<forall>i<j. failsAt env s i) \<and> succeedsAt env s j)"
  proof (cases rule: run_cases[of env s])
    case exhausted
    then show ?thesis by (simp add: run_exhausted)
  next
    case (closed j)
    then show ?thesis by (simp add: run_closed_at)
  next
    case (success j)
    then show ?thesis by blast
  qed
  have exh: "fst ?R = Some reconnectExhausted \<longrightarrow> (\<forall>i<?n. failsAt env s i)"
  proof (cases rule: run_cases[of env s])
    case exhausted
    then show ?thesis by blast
  next
    case (closed j)
    then show ?thesis by (simp add: run_closed_at errors_distinct)
  next
    case (success j)
    then show ?thesis by (simp add: run_succeeds_at)
  qed
  have ans: "\<forall>t. (fst (reconnect t) = None) =
           (answers t
              (calls t + (case channel (client t) of None \<Rightarrow> 0 | Some ch \<Rightarrow> 1)
                 + (case conn (client t) of None \<Rightarrow> 0 | Some h \<Rightarrow> if h \<in> dead t then 0 else 1))
              = None
            \<and> answers t
              (Suc (calls t + (case channel (client t) of None \<Rightarrow> 0 | Some ch \<Rightarrow> 1)
                 + (case conn (client t) of None \<Rightarrow> 0 | Some h \<Rightarrow> if h \<in> dead t then 0 else 1)))
              = None)"
    by (simp add: reconnect_succeeds_iff closeStale_calls(2))
  have b1: "\<forall>i. backoff i = min (1000000000 * 2 ^ i) 30000000000"
    by (simp add: backoff_def initialBackoff_def maxBackoff_def)
  have b2: "\<forall>i. backoff i \<le> 30000000000"
    using backoff_capped by (simp add: maxBackoff_def)
  have first: "(case ?R of
      (r, acts, s') \<Rightarrow>
        length (filter isDial acts) \<le> ?n
        \<and> ((\<exists>j<?n.
               r = Some closedDuringReconnection
                 \<and> marks acts = pattern [0..<j] @ [Slept (backoff j)]
             \<or> r = None
                 \<and> marks acts = pattern [0..<Suc j] @ [Watching]
                 \<and> (\<exists>front u h.
                       acts = front @ [Dial u, OpenChannel h, Watch (conn (client (env (Suc j) s')))]
                       \<and> conn (client s') = Some h))
           \<or> r = Some reconnectExhausted
               \<and> marks acts = pattern [0..<?n]))"
    using dials shape by (cases ?R) simp
  show ?thesis
    apply (intro conjI)
    subgoal by (rule first)
    subgoal by (intro allI impI) (simp add: run_succeeds_at)
    subgoal by (intro impI) (simp add: run_exhausted)
    subgoal by (intro allI impI) (simp add: run_closed_at)
    subgoal by (rule none)
    subgoal by (rule exh)
    subgoal by (simp add: failedTrace_marks failedTrace_dials)
    subgoal by (rule ans)
    subgoal by (rule pattern_5)
    subgoal by (rule b1)
    subgoal by (rule backoff_mono)
    subgoal by (rule b2)
    done
qed


text \<open>C4 on a broker that cannot be reached, on one that rejects the first dial and
  accepts the second, and with Close called during the second sleep.\<close>

theorem C4_reconnectWithBackoff_witness:
  "(\<forall>i. failsAt idle (dropped unreachable) i)
   \<and> reconnectWithBackoff idle (dropped unreachable) =
       (Some reconnectExhausted,
        [Sleep 1000000000, CloseChannel 1, Dial ''amqp://test'',
         Sleep 2000000000, CloseChannel 1, Dial ''amqp://test'',
         Sleep 4000000000, CloseChannel 1, Dial ''amqp://test'',
         Sleep 8000000000, CloseChannel 1, Dial ''amqp://test'',
         Sleep 16000000000, CloseChannel 1, Dial ''amqp://test''],
        (dropped unreachable)
          \<lparr>client := (client (dropped unreachable))\<lparr>conn := None\<rparr>, calls := 12\<rparr>)
   \<and> Suc 0 < maxReconnectAttempts
   \<and> failsAt idle (dropped (rejecting 3)) 0
   \<and> succeedsAt idle (dropped (rejecting 3)) (Suc 0)
   \<and> reconnectWithBackoff idle (dropped (rejecting 3)) =
       (None,
        [Sleep 1000000000, CloseChannel 1, Dial ''amqp://test'',
         Sleep 2000000000, CloseChannel 1, Dial ''amqp://test'', OpenChannel 2,
         Watch (Some 2)],
        (dropped (rejecting 3))
          \<lparr>client := (client (dropped (rejecting 3)))\<lparr>conn := Some 2, channel := Some 3\<rparr>,
           calls := 7, fresh := 4\<rparr>)
   \<and> failsAt (closingAt 1) (dropped unreachable) 0
   \<and> closed (client (atCheck (closingAt 1) (Suc 0) (dropped unreachable)))
   \<and> reconnectWithBackoff (closingAt 1) (dropped unreachable) =
       (Some closedDuringReconnection,
        [Sleep 1000000000, CloseChannel 1, Dial ''amqp://test'', Sleep 2000000000],
        atCheck (closingAt 1) (Suc 0) (dropped unreachable))"
proof -
  note all = C4_reconnectWithBackoff[of idle "dropped unreachable"]
  note one = C4_reconnectWithBackoff[of idle "dropped (rejecting 3)"]
  note cls = C4_reconnectWithBackoff[of "closingAt 1" "dropped unreachable"]
  have k: "Suc 0 < maxReconnectAttempts" by (simp add: maxReconnectAttempts_def)
  \<comment> \<open>the broker cannot be reached\<close>
  have f: "\<forall>i. failsAt idle (dropped unreachable) i"
    by (simp add: fails_dropped_unreachable)
  then have "\<forall>i<maxReconnectAttempts. failsAt idle (dropped unreachable) i" by simp
  from all[THEN conjunct2, THEN conjunct2, THEN conjunct1, THEN mp, OF this]
  have w1: "reconnectWithBackoff idle (dropped unreachable) =
       (Some reconnectExhausted,
        [Sleep 1000000000, CloseChannel 1, Dial ''amqp://test'',
         Sleep 2000000000, CloseChannel 1, Dial ''amqp://test'',
         Sleep 4000000000, CloseChannel 1, Dial ''amqp://test'',
         Sleep 8000000000, CloseChannel 1, Dial ''amqp://test'',
         Sleep 16000000000, CloseChannel 1, Dial ''amqp://test''],
        (dropped unreachable)
          \<lparr>client := (client (dropped unreachable))\<lparr>conn := None\<rparr>, calls := 12\<rparr>)"
    using after_dropped_unreachable[of 4]
    by (simp add: trace_dropped_unreachable maxReconnectAttempts_def upt_5 backoff_def
        initialBackoff_def maxBackoff_def del: afterAttempts.simps failedTrace.simps)
  \<comment> \<open>the broker rejects the first dial and accepts the second\<close>
  have f0: "failsAt idle (dropped (rejecting 3)) 0"
    by (simp add: run_defs amqp_defs)
  have s1: "succeedsAt idle (dropped (rejecting 3)) (Suc 0)"
    by (simp add: run_defs amqp_defs)
  from f0 have "\<forall>i<Suc 0. failsAt idle (dropped (rejecting 3)) i" by simp
  from one[THEN conjunct2, THEN conjunct1, rule_format, OF k conjI[OF this s1]]
  have w2: "reconnectWithBackoff idle (dropped (rejecting 3)) =
       (None,
        [Sleep 1000000000, CloseChannel 1, Dial ''amqp://test'',
         Sleep 2000000000, CloseChannel 1, Dial ''amqp://test'', OpenChannel 2,
         Watch (Some 2)],
        (dropped (rejecting 3))
          \<lparr>client := (client (dropped (rejecting 3)))\<lparr>conn := Some 2, channel := Some 3\<rparr>,
           calls := 7, fresh := 4\<rparr>)"
    by (simp add: run_defs amqp_defs)
  \<comment> \<open>Close is called during the second sleep\<close>
  have g0: "failsAt (closingAt 1) (dropped unreachable) 0"
    by (simp add: run_defs amqp_defs)
  have c1: "closed (client (atCheck (closingAt 1) (Suc 0) (dropped unreachable)))"
    by (simp add: atCheck_def closingAt_def Close_closed del: afterAttempts.simps)
  from g0 have "\<forall>i<Suc 0. failsAt (closingAt 1) (dropped unreachable) i" by simp
  from cls[THEN conjunct2, THEN conjunct2, THEN conjunct2, THEN conjunct1, rule_format,
      OF k conjI[OF this c1]]
  have w3: "reconnectWithBackoff (closingAt 1) (dropped unreachable) =
       (Some closedDuringReconnection,
        [Sleep 1000000000, CloseChannel 1, Dial ''amqp://test'', Sleep 2000000000],
        atCheck (closingAt 1) (Suc 0) (dropped unreachable))"
    by (simp add: run_defs amqp_defs)
  from f w1 k f0 s1 w2 g0 c1 w3 show ?thesis by (intro conjI)
qed

text \<open>
  C3, as the specification states it, has each attempt check the shutdown flag before
  sleeping as well as before dialling. The loop sleeps first and checks once, after the
  sleep: started on a client on which Close has just completed, it still sleeps a second
  before it stops.
\<close>

theorem C3_sleeps_before_check:
  "closed (client (snd (snd (Close (connected reachable)))))
   \<and> reconnectWithBackoff idle (snd (snd (Close (connected reachable)))) =
       (Some closedDuringReconnection, [Sleep 1000000000],
        snd (snd (Close (connected reachable))))"
  by (simp add: reconnectWithBackoff_def maxReconnectAttempts_def upt_5 attempts_Cons_closed
      idle_def Close_closed backoff_def initialBackoff_def maxBackoff_def)

text \<open>
  C3, amended. Each attempt of the retry sequence sleeps and then, in one step under the
  lock, checks the shutdown flag once, before it reconnects; there is no check before the
  sleep. An attempt that finds the flag set performs nothing after its sleep and ends the
  sequence with "client closed during reconnection", which is not the error of exhausted
  attempts. So a shutdown requested by the time attempt k takes the lock leaves the
  sequence at most k dials, those of the attempts before, and it ends with success of an
  earlier attempt or with the closed error, never with exhaustion; and a sequence that
  reports the closed error ends with a sleep and leaves the flag set.
\<close>

theorem C3_abort_when_closed:
  "(closed (client (env attempt s)) \<longrightarrow>
      attempts env (attempt # rest) s =
        (Some closedDuringReconnection, [Sleep (backoff attempt)], env attempt s))
   \<and> (closed (client (env 0 s)) \<longrightarrow>
        reconnectWithBackoff env s =
          (Some closedDuringReconnection, [Sleep initialBackoff], env 0 s))
   \<and> (k < maxReconnectAttempts \<and> (\<forall>t. closed (client (env k t))) \<longrightarrow>
        (fst (reconnectWithBackoff env s) = None
           \<or> fst (reconnectWithBackoff env s) = Some closedDuringReconnection)
        \<and> length (filter isDial (fst (snd (reconnectWithBackoff env s)))) \<le> k)
   \<and> (fst (reconnectWithBackoff env s) = Some closedDuringReconnection \<longrightarrow>
        (\<exists>front d. fst (snd (reconnectWithBackoff env s)) = front @ [Sleep d])
        \<and> closed (client (snd (snd (reconnectWithBackoff env s)))))
   \<and> closedDuringReconnection \<noteq> reconnectExhausted"
proof (intro conjI impI)
  assume "closed (client (env attempt s))"
  then show "attempts env (attempt # rest) s =
        (Some closedDuringReconnection, [Sleep (backoff attempt)], env attempt s)"
    by (rule attempts_Cons_closed)
next
  assume "closed (client (env 0 s))"
  then show "reconnectWithBackoff env s =
      (Some closedDuringReconnection, [Sleep initialBackoff], env 0 s)"
    by (simp add: reconnectWithBackoff_def maxReconnectAttempts_def upt_5 attempts_Cons_closed
        backoff_def initialBackoff_def maxBackoff_def)
next
  assume h: "k < maxReconnectAttempts \<and> (\<forall>t. closed (client (env k t)))"
  then have k: "k \<in> set [0..<5]" and c: "\<forall>t. closed (client (env k t))"
    by (simp_all add: maxReconnectAttempts_def)
  from h have "k = 0 \<or> k = 1 \<or> k = 2 \<or> k = 3 \<or> k = 4"
    by (auto simp: maxReconnectAttempts_def)
  then have len: "length (takeWhile (\<lambda>i. i \<noteq> k) [0..<5]) = k"
    by (auto simp: upt_5)
  note ab = attempts_abort[of env k "[0..<5]" s, OF c k]
  from ab attempts_shape[of "[0..<5]" env s]
  show "fst (reconnectWithBackoff env s) = None
      \<or> fst (reconnectWithBackoff env s) = Some closedDuringReconnection"
    by (auto simp: reconnectWithBackoff_def maxReconnectAttempts_def)
  from ab len
  show "length (filter isDial (fst (snd (reconnectWithBackoff env s)))) \<le> k"
    by (simp add: reconnectWithBackoff_def maxReconnectAttempts_def)
next
  assume "fst (reconnectWithBackoff env s) = Some closedDuringReconnection"
  then have "fst (attempts env [0..<5] s) = Some closedDuringReconnection"
    by (simp add: reconnectWithBackoff_def maxReconnectAttempts_def)
  from attempts_closed[OF this]
  show "\<exists>front d. fst (snd (reconnectWithBackoff env s)) = front @ [Sleep d]"
    "closed (client (snd (snd (reconnectWithBackoff env s))))"
    by (simp_all add: reconnectWithBackoff_def maxReconnectAttempts_def)
next
  show "closedDuringReconnection \<noteq> reconnectExhausted"
    by (rule errors_distinct)
qed

text \<open>C3, amended, with Close called during the first sleep on a reachable broker, and
  during the sleep before attempt 2 on an unreachable one.\<close>

theorem C3_abort_when_closed_witness:
  "closed (client (closingAt 0 0 (connected reachable)))
   \<and> attempts (closingAt 0) [0, 1] (connected reachable) =
       (Some closedDuringReconnection, [Sleep 1000000000],
        closingAt 0 0 (connected reachable))
   \<and> reconnectWithBackoff (closingAt 0) (connected reachable) =
       (Some closedDuringReconnection, [Sleep 1000000000],
        closingAt 0 0 (connected reachable))
   \<and> (2::nat) < maxReconnectAttempts
   \<and> (\<forall>t. closed (client (closingAt 2 2 t)))
   \<and> fst (reconnectWithBackoff (closingAt 2) (connected unreachable))
       = Some closedDuringReconnection
   \<and> length (filter isDial (fst (snd (reconnectWithBackoff (closingAt 2) (connected unreachable)))))
       \<le> 2
   \<and> fst (snd (reconnectWithBackoff (closingAt 2) (connected unreachable))) =
       [Sleep 1000000000, CloseChannel 1, CloseConn 0, Dial ''amqp://test'',
        Sleep 2000000000, CloseChannel 1, Dial ''amqp://test''] @ [Sleep 4000000000]
   \<and> closed (client (snd (snd (reconnectWithBackoff (closingAt 2) (connected unreachable)))))"
proof -
  have c0: "closed (client (closingAt 0 0 (connected reachable)))"
    by (simp add: closingAt_def Close_closed)
  have c2: "\<forall>t. closed (client (closingAt 2 2 t))"
    by (simp add: closingAt_def Close_closed)
  have k: "(2::nat) < maxReconnectAttempts"
    by (simp add: maxReconnectAttempts_def)
  have b0: "backoff 0 = 1000000000" "initialBackoff = 1000000000"
    by (simp_all add: backoff_def initialBackoff_def maxBackoff_def)
  note t0 = C3_abort_when_closed[of "closingAt 0" 0 "connected reachable" "[1]" 0]
  note t2 = C3_abort_when_closed[of "closingAt 2" 0 "connected unreachable" "[]" 2]
  have r2: "fst (reconnectWithBackoff (closingAt 2) (connected unreachable))
      = Some closedDuringReconnection"
    by (simp add: run_example)
  from t0[THEN conjunct1, rule_format, OF c0]
  have w1: "attempts (closingAt 0) [0, 1] (connected reachable) =
       (Some closedDuringReconnection, [Sleep 1000000000],
        closingAt 0 0 (connected reachable))"
    by (simp only: b0)
  from t0[THEN conjunct2, THEN conjunct1, rule_format, OF c0]
  have w2: "reconnectWithBackoff (closingAt 0) (connected reachable) =
       (Some closedDuringReconnection, [Sleep 1000000000],
        closingAt 0 0 (connected reachable))"
    by (simp only: b0)
  from t2[THEN conjunct2, THEN conjunct2, THEN conjunct1, rule_format, OF conjI[OF k c2]]
  have w3: "length (filter isDial
      (fst (snd (reconnectWithBackoff (closingAt 2) (connected unreachable))))) \<le> 2"
    by simp
  from t2[THEN conjunct2, THEN conjunct2, THEN conjunct2, THEN conjunct1, rule_format, OF r2]
  have w4: "closed (client (snd (snd (reconnectWithBackoff (closingAt 2) (connected unreachable)))))"
    by simp
  have w5: "fst (snd (reconnectWithBackoff (closingAt 2) (connected unreachable))) =
       [Sleep 1000000000, CloseChannel 1, CloseConn 0, Dial ''amqp://test'',
        Sleep 2000000000, CloseChannel 1, Dial ''amqp://test''] @ [Sleep 4000000000]"
    by (simp add: run_example)
  from c0 w1 w2 k c2 r2 w3 w5 w4 show ?thesis
    by (intro conjI)
qed

end
